theory Spec2Isabelle
  imports Main
begin

section \<open>Python values and the workflow state\<close>

text \<open>
  The workflow state \<^verbatim>\<open>AgentState\<close> is a Python dict that the stage functions read with
  \<^verbatim>\<open>state.get(key, default)\<close>. A key may be absent, and nothing enforces the declared
  type of a stored value (the controller's \<^verbatim>\<open>modify_state\<close> writes a string under any
  key and fills missing keys with the empty string), so a value is one of the shapes
  below and the state is a partial map from key names to values. A retrieved document is
  the dict \<^verbatim>\<open>{content, source, metadata}\<close>; the metadata is a library object that no
  function of the workflow reads and is left out.
\<close>

record doc =
  content :: string
  source :: string

datatype pyval = PNone | PInt int | PStr string | PDocs "doc list"

type_synonym state = "string \<rightharpoonup> pyval"

datatype exc = TypeError | ValueError | IndexError | KeyError | AttributeError
  | GenerationError
  | InvalidUpdateError | EmptyInputError

text \<open>\<^verbatim>\<open>state.get(k, d)\<close>\<close>

definition dict_get :: "state \<Rightarrow> string \<Rightarrow> pyval \<Rightarrow> pyval" where
  "dict_get s k d = (case s k of None \<Rightarrow> d | Some v \<Rightarrow> v)"

text \<open>Python's \<^verbatim>\<open>a + b\<close> on these values: integers add, strings and lists concatenate,
  every other pairing raises \<^verbatim>\<open>TypeError\<close>.\<close>

fun py_add :: "pyval \<Rightarrow> pyval \<Rightarrow> exc + pyval" where
  "py_add (PInt a) (PInt b) = Inr (PInt (a + b))"
| "py_add (PStr a) (PStr b) = Inr (PStr (a @ b))"
| "py_add (PDocs a) (PDocs b) = Inr (PDocs (a @ b))"
| "py_add _ _ = Inl TypeError"

text \<open>Python's \<^verbatim>\<open>a > b\<close>: integers by value, strings lexicographically by code unit, lists
  element by element (two different documents are dicts, which have no order), anything
  else raises \<^verbatim>\<open>TypeError\<close>.\<close>

fun str_gt :: "string \<Rightarrow> string \<Rightarrow> bool" where
  "str_gt [] _ = False"
| "str_gt (x # xs) [] = True"
| "str_gt (x # xs) (y # ys) =
     (if x = y then str_gt xs ys else (of_char y :: nat) < of_char x)"

fun docs_gt :: "doc list \<Rightarrow> doc list \<Rightarrow> exc + bool" where
  "docs_gt [] _ = Inr False"
| "docs_gt (x # xs) [] = Inr True"
| "docs_gt (x # xs) (y # ys) = (if x = y then docs_gt xs ys else Inl TypeError)"

fun py_gt :: "pyval \<Rightarrow> pyval \<Rightarrow> exc + bool" where
  "py_gt (PInt a) (PInt b) = Inr (b < a)"
| "py_gt (PStr a) (PStr b) = Inr (str_gt a b)"
| "py_gt (PDocs a) (PDocs b) = docs_gt a b"
| "py_gt _ _ = Inl TypeError"

section \<open>The two deployments of the workflow graph\<close>

text \<open>
  The repository holds the same workflow twice: the ESG proposal designer
  (\<^verbatim>\<open>project_designer_v1.py\<close> with \<^verbatim>\<open>gui_v1.py\<close>, nodes planner, drafter, finalizer) and
  the course designer (\<^verbatim>\<open>course_designer_rag.py\<close> with \<^verbatim>\<open>simplified_gui_rag.py\<close>, nodes
  planner, course designer, reflect). The code of the two differs only in the strings
  collected here: the node names, the finalizer's placeholder text, the caller-facing
  name of the draft field, the controller's \<^verbatim>\<open>node_map\<close> and two display texts.
\<close>

record deployment =
  drafter :: string
  finalizer :: string
  finalize_error :: string
  gui_draft_key :: string
  node_map :: "(string \<times> string) list"
  no_docs_text :: string
  no_materials_text :: string

definition esg :: deployment where
  "esg = \<lparr>drafter = ''drafter'', finalizer = ''finalizer'',
     finalize_error = ''Error occurred during finalization.'',
     gui_draft_key = ''proposal'',
     node_map = [(''drafter'', ''drafter''), (''planner'', ''planner'')],
     no_docs_text = ''No reference materials were retrieved for this proposal topic.'',
     no_materials_text = ''No reference materials have been retrieved yet. Generate a proposal first by going to the Agent tab.''\<rparr>"

definition course :: deployment where
  "course = \<lparr>drafter = ''course designer'', finalizer = ''reflect'',
     finalize_error = ''Error occurred during reflection.'',
     gui_draft_key = ''design'',
     node_map = [(''writer'', ''course designer''),
                 (''course designer'', ''course designer'')],
     no_docs_text = ''No teaching materials were retrieved for this course topic.'',
     no_materials_text = ''No teaching materials have been retrieved yet. Generate a course first by going to the Agent tab.''\<rparr>"

section \<open>Stage functions\<close>

text \<open>
  Each stage makes one external generation call, \<^verbatim>\<open>self.model.invoke(messages)\<close>. Its
  outcome is the argument \<open>response\<close>: \<open>Some content\<close> when the call returns, \<open>None\<close> when
  it raises. The planner first calls \<^verbatim>\<open>retrieve_relevant_documents\<close>; the outcome of that
  call is the argument \<open>retrieval\<close>, the documents it returned or the exception it raised.
  A stage returns the dict literal of the source, written as an association list in the
  source's order.
\<close>

text \<open>\<^verbatim>\<open>plan_node\<close> has no handler: an exception of the retrieval, and after it a failed
  generation call, leaves the node by exception.\<close>

definition plan_node :: "state \<Rightarrow> exc + doc list \<Rightarrow> string option \<Rightarrow> exc + state" where
  "plan_node s retrieval response =
     (case retrieval of
        Inl e \<Rightarrow> Inl e
      | Inr retrieved_docs \<Rightarrow>
         (case response of
            None \<Rightarrow> Inl GenerationError
          | Some text \<Rightarrow> Inr (map_of
              [(''plan'', PStr text),
               (''lnode'', PStr ''planner''),
               (''draft'', dict_get s ''draft'' (PStr ''no draft yet'')),
               (''critique'', dict_get s ''critique'' (PStr ''no critique yet'')),
               (''revision_number'', dict_get s ''revision_number'' (PInt 0)),
               (''max_revisions'', dict_get s ''max_revisions'' (PInt 2)),
               (''count'', PInt 1),
               (''task'', dict_get s ''task'' (PStr '''')),
               (''retrieved_docs'', PDocs retrieved_docs)])))"

text \<open>The \<^verbatim>\<open>try\<close> block of \<^verbatim>\<open>draft_node\<close> / \<^verbatim>\<open>writer_node\<close>: the generation call, then
  the dict literal, whose \<^verbatim>\<open>+ 1\<close> raises on a stored value that is not a number.\<close>

definition draft_try :: "string \<Rightarrow> state \<Rightarrow> string option \<Rightarrow> exc + state" where
  "draft_try name s response =
     (case response of
        None \<Rightarrow> Inl GenerationError
      | Some text \<Rightarrow>
         (case py_add (dict_get s ''revision_number'' (PInt 0)) (PInt 1) of
            Inl e \<Rightarrow> Inl e
          | Inr rn \<Rightarrow>
             (case py_add (dict_get s ''count'' (PInt 0)) (PInt 1) of
                Inl e \<Rightarrow> Inl e
              | Inr cnt \<Rightarrow> Inr (map_of
                  [(''draft'', PStr text),
                   (''plan'', dict_get s ''plan'' (PStr '''')),
                   (''critique'', dict_get s ''critique'' (PStr ''no critique yet'')),
                   (''task'', dict_get s ''task'' (PStr '''')),
                   (''revision_number'', rn),
                   (''max_revisions'', dict_get s ''max_revisions'' (PInt 2)),
                   (''lnode'', PStr name),
                   (''count'', cnt),
                   (''retrieved_docs'', dict_get s ''retrieved_docs'' (PDocs []))]))))"

text \<open>The \<^verbatim>\<open>except Exception\<close> branch: the same dict with the placeholder draft. Its own
  \<^verbatim>\<open>+ 1\<close> is outside any handler.\<close>

definition draft_except :: "string \<Rightarrow> state \<Rightarrow> exc + state" where
  "draft_except name s =
     (case py_add (dict_get s ''revision_number'' (PInt 0)) (PInt 1) of
        Inl e \<Rightarrow> Inl e
      | Inr rn \<Rightarrow>
         (case py_add (dict_get s ''count'' (PInt 0)) (PInt 1) of
            Inl e \<Rightarrow> Inl e
          | Inr cnt \<Rightarrow> Inr (map_of
              [(''draft'', PStr ''Error occurred during content generation.''),
               (''plan'', dict_get s ''plan'' (PStr '''')),
               (''critique'', dict_get s ''critique'' (PStr '''')),
               (''task'', dict_get s ''task'' (PStr '''')),
               (''revision_number'', rn),
               (''max_revisions'', dict_get s ''max_revisions'' (PInt 2)),
               (''lnode'', PStr name),
               (''count'', cnt),
               (''retrieved_docs'', dict_get s ''retrieved_docs'' (PDocs []))])))"

definition node_draft :: "string \<Rightarrow> state \<Rightarrow> string option \<Rightarrow> exc + state" where
  "node_draft name s response =
     (case draft_try name s response of
        Inr d \<Rightarrow> Inr d
      | Inl _ \<Rightarrow> draft_except name s)"

definition draft_node :: "state \<Rightarrow> string option \<Rightarrow> exc + state" where
  "draft_node = node_draft ''drafter''"

definition writer_node :: "state \<Rightarrow> string option \<Rightarrow> exc + state" where
  "writer_node = node_draft ''course designer''"

text \<open>\<^verbatim>\<open>finalize_node\<close> / \<^verbatim>\<open>reflection_node\<close>, built the same way.\<close>

definition finalize_try :: "string \<Rightarrow> state \<Rightarrow> string option \<Rightarrow> exc + state" where
  "finalize_try name s response =
     (case response of
        None \<Rightarrow> Inl GenerationError
      | Some text \<Rightarrow>
         (case py_add (dict_get s ''count'' (PInt 0)) (PInt 1) of
            Inl e \<Rightarrow> Inl e
          | Inr cnt \<Rightarrow> Inr (map_of
              [(''critique'', PStr text),
               (''draft'', dict_get s ''draft'' (PStr '''')),
               (''plan'', dict_get s ''plan'' (PStr '''')),
               (''task'', dict_get s ''task'' (PStr '''')),
               (''revision_number'', dict_get s ''revision_number'' (PInt 0)),
               (''max_revisions'', dict_get s ''max_revisions'' (PInt 2)),
               (''lnode'', PStr name),
               (''count'', cnt),
               (''retrieved_docs'', dict_get s ''retrieved_docs'' (PDocs []))])))"

definition finalize_except :: "string \<Rightarrow> string \<Rightarrow> state \<Rightarrow> exc + state" where
  "finalize_except name placeholder s =
     (case py_add (dict_get s ''count'' (PInt 0)) (PInt 1) of
        Inl e \<Rightarrow> Inl e
      | Inr cnt \<Rightarrow> Inr (map_of
          [(''critique'', PStr placeholder),
           (''draft'', dict_get s ''draft'' (PStr '''')),
           (''plan'', dict_get s ''plan'' (PStr '''')),
           (''task'', dict_get s ''task'' (PStr '''')),
           (''revision_number'', dict_get s ''revision_number'' (PInt 0)),
           (''max_revisions'', dict_get s ''max_revisions'' (PInt 2)),
           (''lnode'', PStr name),
           (''count'', cnt),
           (''retrieved_docs'', dict_get s ''retrieved_docs'' (PDocs []))]))"

definition node_finalize :: "string \<Rightarrow> string \<Rightarrow> state \<Rightarrow> string option \<Rightarrow> exc + state" where
  "node_finalize name placeholder s response =
     (case finalize_try name s response of
        Inr d \<Rightarrow> Inr d
      | Inl _ \<Rightarrow> finalize_except name placeholder s)"

definition finalize_node :: "state \<Rightarrow> string option \<Rightarrow> exc + state" where
  "finalize_node = node_finalize ''finalizer'' ''Error occurred during finalization.''"

definition reflection_node :: "state \<Rightarrow> string option \<Rightarrow> exc + state" where
  "reflection_node = node_finalize ''reflect'' ''Error occurred during reflection.''"

text \<open>The routing predicate. A comparison that raises is caught and ends the run.\<close>

datatype target = END | Node string

definition should_continue :: "string \<Rightarrow> state \<Rightarrow> target" where
  "should_continue fin s =
     (case py_gt (dict_get s ''revision_number'' (PInt 0))
                 (dict_get s ''max_revisions'' (PInt 2)) of
        Inl _ \<Rightarrow> END
      | Inr True \<Rightarrow> END
      | Inr False \<Rightarrow> Node fin)"

section \<open>State channels and their reducers\<close>

text \<open>
  \<^verbatim>\<open>AgentState\<close> declares nine keys. Eight are plain: a written value replaces the stored
  one. The ninth is declared \<^verbatim>\<open>count: Annotated[int, operator.add]\<close>: the graph library
  keeps for it the running \<^verbatim>\<open>operator.add\<close> of everything written, starting from
  \<^verbatim>\<open>int()\<close>, so a written count is added to the stored count. This holds for the dict a
  node returns and for the values handed to \<^verbatim>\<open>update_state\<close> alike. Keys that are not
  declared are not channels and are dropped.
\<close>

definition required_keys :: "string list" where
  "required_keys = [''task'', ''plan'', ''draft'', ''critique'', ''revision_number'',
     ''max_revisions'', ''count'', ''lnode'', ''retrieved_docs'']"

definition last_value_keys :: "string list" where
  "last_value_keys = [''task'', ''plan'', ''draft'', ''critique'', ''revision_number'',
     ''max_revisions'', ''lnode'', ''retrieved_docs'']"

definition apply_writes :: "state \<Rightarrow> state \<Rightarrow> exc + state" where
  "apply_writes s u =
     (let s' = s ++ (u |` set last_value_keys) in
      case u ''count'' of
        None \<Rightarrow> Inr s'
      | Some v \<Rightarrow>
         (case py_add (dict_get s ''count'' (PInt 0)) v of
            Inl e \<Rightarrow> Inl e
          | Inr c \<Rightarrow> Inr (s'(''count'' \<mapsto> c))))"

text \<open>One node of the graph, by name, and one stage execution: the node runs on the
  stored state and its dict is written through the channels. Only the planner makes the
  retrieval call and looks at its outcome.\<close>

definition run_node :: "deployment \<Rightarrow> string \<Rightarrow> state \<Rightarrow> exc + doc list \<Rightarrow> string option
    \<Rightarrow> exc + state" where
  "run_node g name s retrieval response =
     (if name = ''planner'' then plan_node s retrieval response
      else if name = drafter g then node_draft (drafter g) s response
      else if name = finalizer g then node_finalize (finalizer g) (finalize_error g) s response
      else Inl InvalidUpdateError)"

definition exec_node :: "deployment \<Rightarrow> string \<Rightarrow> state \<Rightarrow> exc + doc list \<Rightarrow> string option
    \<Rightarrow> exc + state" where
  "exec_node g name s retrieval response =
     (case run_node g name s retrieval response of
        Inl e \<Rightarrow> Inl e
      | Inr d \<Rightarrow> apply_writes s d)"

text \<open>The edges: planner to drafter, finalizer to drafter, and the conditional edge
  after the drafter. The result is the tuple \<^verbatim>\<open>next\<close> of the library's snapshot.\<close>

definition route :: "deployment \<Rightarrow> string \<Rightarrow> state \<Rightarrow> string list" where
  "route g name s =
     (if name = ''planner'' then [drafter g]
      else if name = drafter g then
        (case should_continue (finalizer g) s of END \<Rightarrow> [] | Node n \<Rightarrow> [n])
      else if name = finalizer g then [drafter g]
      else [])"

section \<open>The world outside the repository\<close>

text \<open>
  What the code takes from Python and from its libraries, as one parameter:
  \<^item> \<open>int_of_str\<close>: the builtin \<^verbatim>\<open>int(s)\<close> on a string, \<open>None\<close> when it raises
    \<^verbatim>\<open>ValueError\<close>;
  \<^item> \<open>str_of_docs\<close>: the text \<^verbatim>\<open>str(v)\<close> gives a list of documents;
  \<^item> \<open>clock\<close>: the \<^verbatim>\<open>thread_ts\<close> the graph library stamps on the checkpoint written when
    the thread already holds \<open>n\<close> checkpoints;
  \<^item> \<open>generate\<close>: the outcome of the generation call made when the thread holds \<open>n\<close>
    checkpoints (\<open>None\<close>: the call raised);
  \<^item> \<open>retriever\<close>: the attribute \<^verbatim>\<open>self.retriever\<close>. The constructor assigns it only when
    it found documents to load, so it is \<open>None\<close> for a designer built over an empty
    materials directory; otherwise it is the retriever, as the function from a task to
    what \<^verbatim>\<open>get_relevant_documents\<close> returns (\<open>None\<close>: that call raised);
  \<^item> \<open>idle_raises\<close>: whether the library raises when a thread with no next node is
    invoked again, or returns at once. Either way it runs no node.
\<close>

record env =
  int_of_str :: "string \<Rightarrow> int option"
  str_of_docs :: "doc list \<Rightarrow> string"
  clock :: "nat \<Rightarrow> string"
  generate :: "nat \<Rightarrow> string option"
  retriever :: "(pyval \<Rightarrow> doc list option) option"
  idle_raises :: bool

text \<open>Decimal text of an integer, \<^verbatim>\<open>str(v)\<close> of a value, \<^verbatim>\<open>str(t)\<close> of a tuple of node
  names (node names hold no quote and no escape), \<^verbatim>\<open>int(v)\<close>.\<close>

fun show_nat :: "nat \<Rightarrow> string" where
  "show_nat n = (if n < 10 then [''0123456789'' ! n]
                 else show_nat (n div 10) @ [''0123456789'' ! (n mod 10)])"

declare show_nat.simps [simp del]

definition show_int :: "int \<Rightarrow> string" where
  "show_int i = (if i < 0 then CHR ''-'' # show_nat (nat (- i)) else show_nat (nat i))"

definition py_str :: "env \<Rightarrow> pyval \<Rightarrow> string" where
  "py_str E v = (case v of PStr s \<Rightarrow> s | PInt n \<Rightarrow> show_int n | PNone \<Rightarrow> ''None''
                 | PDocs ds \<Rightarrow> str_of_docs E ds)"

definition quoted :: "string \<Rightarrow> string" where
  "quoted a = [CHR 0x27] @ a @ [CHR 0x27]"

fun str_tuple :: "string list \<Rightarrow> string" where
  "str_tuple [] = ''()''"
| "str_tuple [a] = ''('' @ quoted a @ '',)''"
| "str_tuple (a # b # r) =
     ''('' @ quoted a @ concat (map (\<lambda>x. '', '' @ quoted x) (b # r)) @ '')''"

definition py_int :: "env \<Rightarrow> pyval \<Rightarrow> exc + int" where
  "py_int E v = (case v of
       PInt n \<Rightarrow> Inr n
     | PStr s \<Rightarrow> (case int_of_str E s of None \<Rightarrow> Inl ValueError | Some n \<Rightarrow> Inr n)
     | PDocs _ \<Rightarrow> Inl TypeError
     | PNone \<Rightarrow> Inl TypeError)"

text \<open>\<^verbatim>\<open>xs[i]\<close> with Python's negative indices: the position read, or \<^verbatim>\<open>IndexError\<close>.\<close>

definition py_index :: "'a list \<Rightarrow> int \<Rightarrow> exc + nat" where
  "py_index xs i =
     (let n = int (length xs); j = (if i < 0 then n + i else i)
      in if 0 \<le> j \<and> j < n then Inr (nat j) else Inl IndexError)"

text \<open>\<^verbatim>\<open>retrieve_relevant_documents\<close> tests \<^verbatim>\<open>if not self.retriever\<close> before its \<^verbatim>\<open>try\<close>:
  on a designer whose constructor never assigned the attribute the test itself raises
  \<^verbatim>\<open>AttributeError\<close>. With a retriever, a failing search is caught and gives the empty
  list.\<close>

definition retrieve_relevant_documents :: "env \<Rightarrow> pyval \<Rightarrow> exc + doc list" where
  "retrieve_relevant_documents E task =
     (case retriever E of
        None \<Rightarrow> Inl AttributeError
      | Some search \<Rightarrow>
         (case search task of
            None \<Rightarrow> Inr []
          | Some docs \<Rightarrow> Inr docs))"

section \<open>The checkpointed graph\<close>

text \<open>
  The graph library keeps, per thread, the log of checkpoints; \<^verbatim>\<open>get_state_history\<close>
  yields it newest first, and so is the list here. A checkpoint carries its
  \<^verbatim>\<open>thread_ts\<close>, the step number of its metadata, the channel values and the tuple
  \<^verbatim>\<open>next\<close>. The graph is compiled with \<^verbatim>\<open>interrupt_after\<close> naming all three nodes, so one
  \<^verbatim>\<open>invoke\<close> runs one node, writes one checkpoint and returns. An \<^verbatim>\<open>invoke\<close> with an
  input first writes two checkpoints that \<^verbatim>\<open>update_hist_pd\<close> hides: one for the
  arrival of the input (step -1 on a new thread, before any field is written; the count
  channel starts from \<^verbatim>\<open>int()\<close>), and one with the input written into the channels
  (step 0), whose next node is the entry point. A node that raises writes nothing. For
  a thread that has no checkpoint yet,
  \<^verbatim>\<open>get_state\<close> hands back nothing that passes the guards of its callers
  (\<open>graph_get_state\<close> is \<open>None\<close>).
\<close>

record checkpoint =
  thread_ts :: string
  step :: int
  values_cp :: state
  next_cp :: "string list"

type_synonym log = "checkpoint list"

definition graph_get_state :: "log \<Rightarrow> checkpoint option" where
  "graph_get_state lg = (case lg of [] \<Rightarrow> None | c # _ \<Rightarrow> Some c)"

definition channels :: "log \<Rightarrow> state" where
  "channels lg = (case lg of [] \<Rightarrow> [''count'' \<mapsto> PInt 0] | c # _ \<Rightarrow> values_cp c)"

definition write_checkpoint :: "env \<Rightarrow> log \<Rightarrow> state \<Rightarrow> string list \<Rightarrow> log" where
  "write_checkpoint E lg s nxt =
     \<lparr>thread_ts = clock E (length lg),
      step = (case lg of [] \<Rightarrow> - 1 | c # _ \<Rightarrow> step c + 1),
      values_cp = s, next_cp = nxt\<rparr> # lg"

definition run_step :: "deployment \<Rightarrow> env \<Rightarrow> log \<Rightarrow> exc option \<times> log" where
  "run_step g E lg =
     (case lg of
        [] \<Rightarrow> (Some EmptyInputError, lg)
      | c # _ \<Rightarrow>
         (case next_cp c of
            [] \<Rightarrow> (if idle_raises E then Some ValueError else None, lg)
          | n # _ \<Rightarrow>
             (case exec_node g n (values_cp c)
                     (retrieve_relevant_documents E
                        (dict_get (values_cp c) ''task'' (PStr '''')))
                     (generate E (length lg)) of
                Inl e \<Rightarrow> (Some e, lg)
              | Inr s' \<Rightarrow> (None, write_checkpoint E lg s' (route g n s')))))"

definition graph_invoke :: "deployment \<Rightarrow> env \<Rightarrow> state option \<Rightarrow> log \<Rightarrow> exc option \<times> log" where
  "graph_invoke g E input lg =
     (case input of
        None \<Rightarrow> run_step g E lg
      | Some cfg \<Rightarrow>
         (let arrived = write_checkpoint E lg (channels lg) [''__start__'']
          in case apply_writes (channels lg) cfg of
               Inl e \<Rightarrow> (Some e, arrived)
             | Inr s0 \<Rightarrow> run_step g E (write_checkpoint E arrived s0 [''planner''])))"

text \<open>\<^verbatim>\<open>update_state(thread, values, as_node)\<close>: the values are written through the channels
  on top of the latest checkpoint, as if the node \<open>as_node\<close> had returned them, and the
  next node is the one that follows \<open>as_node\<close>. A name that is no node of the graph is
  refused.\<close>

definition update_state :: "deployment \<Rightarrow> env \<Rightarrow> log \<Rightarrow> state \<Rightarrow> pyval \<Rightarrow> exc + log" where
  "update_state g E lg vals as_node =
     (case as_node of
        PStr n \<Rightarrow>
         (if n = ''planner'' \<or> n = drafter g \<or> n = finalizer g then
            (case apply_writes (channels lg) vals of
               Inl e \<Rightarrow> Inl e
             | Inr s' \<Rightarrow> Inr (write_checkpoint E lg s' (route g n s')))
          else Inl InvalidUpdateError)
      | _ \<Rightarrow> Inl InvalidUpdateError)"

section \<open>The session controller\<close>

text \<open>
  The GUI object: the per-thread iteration counters, the list of thread ids, the current
  thread id (\<^verbatim>\<open>self.thread\<close> is always the config of \<^verbatim>\<open>self.thread_id\<close>) and the graph's
  checkpointer, keyed by thread id. The running text \<^verbatim>\<open>partial_message\<close>, which only
  collects the printed responses, is left out of the reports.
\<close>

record gui =
  iterations :: "int list"
  threads :: "int list"
  thread_id :: int
  store :: "int \<Rightarrow> log"

definition init_gui :: gui where
  "init_gui = \<lparr>iterations = [], threads = [], thread_id = - 1, store = (\<lambda>_. [])\<rparr>"

definition max_iterations :: int where
  "max_iterations = 10"

definition current_log :: "gui \<Rightarrow> log" where
  "current_log G = store G (thread_id G)"

text \<open>The input of a new run, as \<^verbatim>\<open>run_agent\<close> builds it.\<close>

definition run_config :: "string \<Rightarrow> state" where
  "run_config topic = map_of
     [(''task'', PStr topic),
      (''max_revisions'', PInt 2),
      (''revision_number'', PInt 0),
      (''lnode'', PStr ''''),
      (''plan'', PStr ''no plan''),
      (''draft'', PStr ''no draft''),
      (''critique'', PStr ''no critique''),
      (''count'', PInt 0),
      (''retrieved_docs'', PDocs [])]"

text \<open>\<^verbatim>\<open>get_disp_state\<close>: the two numeric fields go through \<^verbatim>\<open>int(...)\<close> inside a handler
  for \<^verbatim>\<open>ValueError\<close> and \<^verbatim>\<open>TypeError\<close>; an outer handler turns anything else into the
  error tuple. The next node is reported as the text of the tuple.\<close>

definition coerce_int :: "env \<Rightarrow> pyval \<Rightarrow> exc + int" where
  "coerce_int E v =
     (if v = PNone then Inr 0
      else (case py_int E v of
              Inr n \<Rightarrow> Inr n
            | Inl e \<Rightarrow> if e = ValueError \<or> e = TypeError then Inr 0 else Inl e))"

type_synonym report = "string \<times> string \<times> int \<times> int \<times> int"

definition disp_try :: "env \<Rightarrow> gui \<Rightarrow> exc + report" where
  "disp_try E G =
     (let current_state = graph_get_state (current_log G);
          lnode = (case current_state of None \<Rightarrow> PStr ''''
                   | Some c \<Rightarrow> dict_get (values_cp c) ''lnode'' (PStr ''''));
          acount = (case current_state of None \<Rightarrow> PInt 0
                    | Some c \<Rightarrow> dict_get (values_cp c) ''count'' (PInt 0));
          rv = (case current_state of None \<Rightarrow> PInt 0
                | Some c \<Rightarrow> dict_get (values_cp c) ''revision_number'' (PInt 0));
          nnode = (case current_state of None \<Rightarrow> '''' | Some c \<Rightarrow> str_tuple (next_cp c))
      in case coerce_int E acount of
           Inl e \<Rightarrow> Inl e
         | Inr a \<Rightarrow>
            (case coerce_int E rv of
               Inl e \<Rightarrow> Inl e
             | Inr r \<Rightarrow> Inr (if lnode = PNone then '''' else py_str E lnode,
                              nnode, thread_id G, r, a)))"

definition get_disp_state :: "env \<Rightarrow> gui \<Rightarrow> report" where
  "get_disp_state E G =
     (case disp_try E G of
        Inr t \<Rightarrow> t
      | Inl _ \<Rightarrow> (''error'', ''error'', thread_id G, 0, 0))"

text \<open>\<^verbatim>\<open>run_agent\<close>. One pass of its loop: the graph is invoked; a raised exception is
  reported as the error tuple and ends the run; otherwise the thread's counter goes up,
  the display state is reported, and the run ends when the reported next node is the
  empty string or the last node is in \<open>stop_after\<close>.\<close>

definition error_report :: "gui \<Rightarrow> report" where
  "error_report G = (''error'', '''', thread_id G, 0, 0)"

definition iteration :: "deployment \<Rightarrow> env \<Rightarrow> string list \<Rightarrow> state option \<Rightarrow> gui \<Rightarrow> nat
    \<Rightarrow> report \<times> gui \<times> bool" where
  "iteration g E stop_after config G i =
     (case graph_invoke g E config (current_log G) of
        (Some e, lg) \<Rightarrow>
          (error_report G, G\<lparr>store := (store G)(thread_id G := lg)\<rparr>, True)
      | (None, lg) \<Rightarrow>
          (let G' = G\<lparr>store := (store G)(thread_id G := lg),
                      iterations := (iterations G)[i := iterations G ! i + 1]\<rparr>;
               (lnode, nnode, tid, rv, acount) = get_disp_state E G'
           in ((lnode, nnode, thread_id G', rv, acount), G',
               nnode = '''' \<or> lnode \<in> set stop_after)))"

lemma py_index_bound: "py_index xs t = Inr i \<Longrightarrow> i < length xs"
  by (auto simp: py_index_def Let_def split: if_splits)

lemma py_index_update: "py_index (xs[i := v]) t = py_index xs t"
  by (simp add: py_index_def)

lemma iteration_continue:
  assumes "iteration g E stop_after config G i = (r, G', False)"
  shows "thread_id G' = thread_id G
       \<and> iterations G' = (iterations G)[i := iterations G ! i + 1]"
  using assms
  by (auto simp: iteration_def Let_def split: prod.splits option.splits)

function run_loop :: "deployment \<Rightarrow> env \<Rightarrow> string list \<Rightarrow> state option \<Rightarrow> gui
    \<Rightarrow> report list \<times> gui" where
  "run_loop g E stop_after config G =
     (case py_index (iterations G) (thread_id G) of
        Inl e \<Rightarrow> ([error_report G], G)
      | Inr i \<Rightarrow>
         (if iterations G ! i < max_iterations then
            (case iteration g E stop_after config G i of
               (r, G', halt) \<Rightarrow>
                 (if halt then ([r], G')
                  else (case run_loop g E stop_after None G' of
                          (rs, G'') \<Rightarrow> (r # rs, G''))))
          else ([], G)))"
  by pat_completeness auto
termination
proof (relation "measure (\<lambda>(g, E, stop_after, config, G).
    case py_index (iterations G) (thread_id G) of
      Inl _ \<Rightarrow> 0
    | Inr i \<Rightarrow> nat (max_iterations - iterations G ! i))")
  show "wf (measure (\<lambda>(g, E, stop_after, config, G).
    case py_index (iterations G) (thread_id G) of
      Inl _ \<Rightarrow> 0
    | Inr i \<Rightarrow> nat (max_iterations - iterations G ! i)))"
    by simp
next
  fix g E stop_after config G i r y G' halt
  assume ix: "py_index (iterations G) (thread_id G) = Inr i"
    and lt: "iterations G ! i < max_iterations"
    and it: "(r, y) = iteration g E stop_after config G i"
    and xy: "(G', halt) = y"
    and nh: "\<not> halt"
  from it xy nh have "iteration g E stop_after config G i = (r, G', False)"
    by (metis (full_types))
  from iteration_continue[OF this]
  have tid: "thread_id G' = thread_id G"
    and its: "iterations G' = (iterations G)[i := iterations G ! i + 1]" by simp_all
  have "py_index (iterations G') (thread_id G') = Inr i"
    by (simp add: tid its py_index_update ix)
  moreover have "iterations G' ! i = iterations G ! i + 1"
    using py_index_bound[OF ix] by (simp add: its)
  ultimately show "((g, E, stop_after, None, G'), (g, E, stop_after, config, G))
    \<in> measure (\<lambda>(g, E, stop_after, config, G).
        case py_index (iterations G) (thread_id G) of
          Inl _ \<Rightarrow> 0
        | Inr i \<Rightarrow> nat (max_iterations - iterations G ! i))"
    using ix lt by simp
qed

declare run_loop.simps [simp del]

text \<open>\<^verbatim>\<open>run_agent(start, topic, stop_after)\<close>: the reports it yields, in order, and the
  controller afterwards.\<close>

definition run_agent :: "deployment \<Rightarrow> env \<Rightarrow> bool \<Rightarrow> string \<Rightarrow> string list \<Rightarrow> gui
    \<Rightarrow> report list \<times> gui" where
  "run_agent g E start topic stop_after G =
     (if start then
        run_loop g E stop_after (Some (run_config topic))
          (G\<lparr>iterations := iterations G @ [0],
              thread_id := thread_id G + 1,
              threads := threads G @ [thread_id G + 1]\<rparr>)
      else run_loop g E stop_after None G)"

text \<open>\<^verbatim>\<open>switch_thread\<close> stores the id it is given.\<close>

definition switch_thread :: "int \<Rightarrow> gui \<Rightarrow> gui" where
  "switch_thread new_thread_id G = G\<lparr>thread_id := new_thread_id\<rparr>"

text \<open>\<^verbatim>\<open>update_hist_pd\<close>: the choices of the history dropdown, one text per checkpoint
  from step 1 on, newest first.\<close>

definition hist_entry :: "env \<Rightarrow> gui \<Rightarrow> checkpoint \<Rightarrow> string" where
  "hist_entry E G c =
     show_int (thread_id G) @ '':''
     @ py_str E (dict_get (values_cp c) ''count'' (PInt 0)) @ '':''
     @ py_str E (dict_get (values_cp c) ''lnode'' (PStr '''')) @ '':''
     @ str_tuple (next_cp c) @ '':''
     @ py_str E (dict_get (values_cp c) ''revision_number'' (PInt 0)) @ '':''
     @ thread_ts c"

definition update_hist_pd :: "env \<Rightarrow> gui \<Rightarrow> string list" where
  "update_hist_pd E G = map (hist_entry E G) (filter (\<lambda>c. \<not> step c < 1) (current_log G))"

text \<open>\<^verbatim>\<open>hist_str.split(":")[-1]\<close>: what follows the last colon.\<close>

definition last_field :: "string \<Rightarrow> string" where
  "last_field hist_str = rev (takeWhile (\<lambda>c. c \<noteq> CHR '':'') (rev hist_str))"

text \<open>\<^verbatim>\<open>find_config\<close> walks the history for a checkpoint with the given \<^verbatim>\<open>thread_ts\<close>; the
  config it returns names that checkpoint, which \<^verbatim>\<open>get_state(config)\<close> then reads.\<close>

definition find_config :: "log \<Rightarrow> string \<Rightarrow> checkpoint option" where
  "find_config lg ts = find (\<lambda>c. thread_ts c = ts) lg"

text \<open>\<^verbatim>\<open>copy_state\<close>. Its result is the tuple \<^verbatim>\<open>(lnode, nnode, thread_ts, rev, count)\<close>; the
  second component is \<open>None\<close> for the empty string of the blank tuple and \<open>Some t\<close> for a
  tuple of node names. Nothing in it is caught: what \<^verbatim>\<open>update_state\<close> raises leaves the
  function.\<close>

type_synonym restored = "pyval \<times> string list option \<times> string \<times> pyval \<times> pyval"

definition blank :: restored where
  "blank = (PStr '''', None, '''', PInt 0, PInt 0)"

definition copy_state :: "deployment \<Rightarrow> env \<Rightarrow> string \<Rightarrow> gui \<Rightarrow> exc + restored \<times> gui" where
  "copy_state g E hist_str G =
     (if hist_str = '''' then Inr (blank, G)
      else
        (case find_config (current_log G) (last_field hist_str) of
           None \<Rightarrow> Inr (blank, G)
         | Some st \<Rightarrow>
            (case update_state g E (current_log G) (values_cp st)
                    (dict_get (values_cp st) ''lnode'' (PStr '''')) of
               Inl e \<Rightarrow> Inl e
             | Inr lg \<Rightarrow>
                (case graph_get_state lg of
                   None \<Rightarrow> Inl KeyError
                 | Some new_state \<Rightarrow>
                     Inr ((dict_get (values_cp new_state) ''lnode'' (PStr ''''),
                           Some (next_cp new_state),
                           thread_ts new_state,
                           dict_get (values_cp new_state) ''revision_number'' (PInt 0),
                           dict_get (values_cp new_state) ''count'' (PInt 0)),
                          G\<lparr>store := (store G)(thread_id G := lg)\<rparr>)))))"

text \<open>\<^verbatim>\<open>modify_state\<close>. A thread without a checkpoint has no state to edit and is left
  alone; every exception is caught and printed, so the function always returns.\<close>

definition key_map :: "deployment \<Rightarrow> (string \<times> string) list" where
  "key_map g = [(gui_draft_key g, ''draft''), (''draft'', ''draft''),
                (''materials'', ''retrieved_docs'')]"

definition fill_required :: "state \<Rightarrow> state \<Rightarrow> state" where
  "fill_required current updated =
     foldl (\<lambda>u req_key.
        if u req_key \<noteq> None then u
        else (case current req_key of
                Some v \<Rightarrow> u(req_key \<mapsto> v)
              | None \<Rightarrow> u(req_key \<mapsto>
                  (if req_key = ''retrieved_docs'' then PDocs [] else PStr ''''))))
       updated required_keys"

definition modify_state :: "deployment \<Rightarrow> env \<Rightarrow> string \<Rightarrow> string \<Rightarrow> pyval \<Rightarrow> gui \<Rightarrow> gui" where
  "modify_state g E key asnode new_state G =
     (case graph_get_state (current_log G) of
        None \<Rightarrow> G
      | Some current_values \<Rightarrow>
         (let update_key = (case map_of (key_map g) key of None \<Rightarrow> key | Some k \<Rightarrow> k);
              update_node = (case map_of (node_map g) asnode of None \<Rightarrow> asnode | Some n \<Rightarrow> n);
              updated_values = fill_required (values_cp current_values)
                                 ((values_cp current_values)(update_key \<mapsto> new_state))
          in case update_state g E (current_log G) updated_values (PStr update_node) of
               Inl e \<Rightarrow> G
             | Inr lg \<Rightarrow> G\<lparr>store := (store G)(thread_id G := lg)\<rparr>))"

text \<open>\<^verbatim>\<open>get_state(key)\<close>: the label and the value of the update it returns.\<close>

definition read_key_map :: "deployment \<Rightarrow> (string \<times> string) list" where
  "read_key_map g = [(gui_draft_key g, ''draft''), (''materials'', ''retrieved_docs'')]"

fun format_docs :: "nat \<Rightarrow> doc list \<Rightarrow> string" where
  "format_docs i [] = ''''"
| "format_docs i (d # ds) =
     ''Document '' @ show_nat (i + 1) @ '' - Source: '' @ source d @ [CHR 0x0A]
     @ content d @ [CHR 0x0A, CHR 0x0A] @ format_docs (i + 1) ds"

definition get_state :: "deployment \<Rightarrow> env \<Rightarrow> string \<Rightarrow> gui \<Rightarrow> string \<times> pyval" where
  "get_state g E key G =
     (case graph_get_state (current_log G) of
        None \<Rightarrow> (''No state available'', PStr '''')
      | Some current_values \<Rightarrow>
         (let search_key = (case map_of (read_key_map g) key of None \<Rightarrow> key | Some k \<Rightarrow> k)
          in case values_cp current_values search_key of
               Some v \<Rightarrow>
                 (let (lnode, nnode, tid, rv, astep) = get_disp_state E G;
                      new_label = ''Last Node: '' @ lnode @ '', Thread: '' @ show_int (thread_id G)
                         @ '', Rev: '' @ show_int rv @ '', Step: '' @ show_int astep;
                      val = (if v = PNone then PStr '''' else v)
                  in (new_label,
                      if search_key = ''retrieved_docs'' then
                        (case val of
                           PDocs ds \<Rightarrow>
                             PStr (if ds = [] then no_docs_text g else format_docs 0 ds)
                         | _ \<Rightarrow> PStr ''Retrieved documents are not in the expected format.'')
                      else val))
             | None \<Rightarrow>
                 (if key = ''materials'' then (''No Materials Retrieved'', PStr (no_materials_text g))
                  else (''Key '' @ quoted key @ '' not found in current state'', PStr ''''))))"

section \<open>Well-formed states\<close>

text \<open>A stored value is valid when it has the type \<^verbatim>\<open>AgentState\<close> declares for its key; the
  step counter also is not negative. A state is valid when every key it holds is, and
  complete when it holds all nine.\<close>

definition valid_val :: "string \<Rightarrow> pyval \<Rightarrow> bool" where
  "valid_val k v =
     (if k = ''revision_number'' \<or> k = ''max_revisions'' then
        (case v of PInt _ \<Rightarrow> True | _ \<Rightarrow> False)
      else if k = ''count'' then (case v of PInt c \<Rightarrow> 0 \<le> c | _ \<Rightarrow> False)
      else if k = ''retrieved_docs'' then
        (case v of PDocs _ \<Rightarrow> True | PNone \<Rightarrow> True | _ \<Rightarrow> False)
      else (case v of PStr _ \<Rightarrow> True | _ \<Rightarrow> False))"

definition valid_state :: "state \<Rightarrow> bool" where
  "valid_state s =
     list_all (\<lambda>k. case s k of None \<Rightarrow> True | Some v \<Rightarrow> valid_val k v) required_keys"

definition complete_state :: "state \<Rightarrow> bool" where
  "complete_state s = list_all (\<lambda>k. s k \<noteq> None) required_keys"

definition count_of :: "state \<Rightarrow> int" where
  "count_of s = (case dict_get s ''count'' (PInt 0) of PInt c \<Rightarrow> c | _ \<Rightarrow> 0)"

definition rev_of :: "state \<Rightarrow> int" where
  "rev_of s = (case dict_get s ''revision_number'' (PInt 0) of PInt c \<Rightarrow> c | _ \<Rightarrow> 0)"

definition names_ok :: "deployment \<Rightarrow> bool" where
  "names_ok g = (drafter g \<noteq> ''planner'' \<and> finalizer g \<noteq> ''planner''
     \<and> finalizer g \<noteq> drafter g)"

text \<open>The last nodes of the checkpoints that nodes wrote (step 1 and later), oldest first:
  the order in which the thread's nodes ran.\<close>

definition executed :: "env \<Rightarrow> log \<Rightarrow> string list" where
  "executed E lg =
     map (\<lambda>c. py_str E (dict_get (values_cp c) ''lnode'' (PStr '''')))
       (rev (filter (\<lambda>c. \<not> step c < 1) lg))"

section \<open>A concrete environment\<close>

text \<open>For evaluating the definitions on concrete sessions: every generation call returns
  a text, the retriever is set up and finds nothing, no string parses as a number, and
  checkpoints are stamped with ISO 8601 times, as the graph library stamps them.\<close>

definition iso_clock :: "nat \<Rightarrow> string" where
  "iso_clock n = ''2024-05-01T10:00:0'' @ show_nat n @ ''.000000+00:00''"

definition demo_env :: env where
  "demo_env = \<lparr>int_of_str = (\<lambda>_. None), str_of_docs = (\<lambda>_. ''[...]''),
     clock = iso_clock, generate = (\<lambda>_. Some ''text''),
     retriever = Some (\<lambda>_. Some []),
     idle_raises = False\<rparr>"

text \<open>The session after one new run of the course designer that stopped after the
  planner: thread 0 with the two checkpoints of the input and the planner's.\<close>

definition demo_gui :: gui where
  "demo_gui = snd (run_agent course demo_env True ''T'' [''planner''] init_gui)"

section \<open>Stage steps on valid states\<close>

lemma valid_get:
  "valid_state s \<Longrightarrow> k \<in> set required_keys \<Longrightarrow> valid_val k d \<Longrightarrow> valid_val k (dict_get s k d)"
  unfolding valid_state_def list_all_iff dict_get_def
  by (cases "s k") auto

lemma valid_count: 
  assumes "valid_state s" shows "\<exists>c. 0 \<le> c \<and> dict_get s ''count'' (PInt 0) = PInt c"
proof -
  have "valid_val ''count'' (dict_get s ''count'' (PInt 0))"
    by (rule valid_get[OF assms]) (simp_all add: required_keys_def valid_val_def)
  then show ?thesis
    by (cases "dict_get s ''count'' (PInt 0)") (simp_all add: valid_val_def)
qed

lemma valid_rev:
  assumes "valid_state s" shows "\<exists>c. dict_get s ''revision_number'' (PInt 0) = PInt c"
proof -
  have "valid_val ''revision_number'' (dict_get s ''revision_number'' (PInt 0))"
    by (rule valid_get[OF assms]) (simp_all add: required_keys_def valid_val_def)
  then show ?thesis
    by (cases "dict_get s ''revision_number'' (PInt 0)") (simp_all add: valid_val_def)
qed

lemma apply_writes_plain:
  assumes "apply_writes s u = Inr s'" and "k \<noteq> ''count''"
  shows "s' k = (if k \<in> set last_value_keys then (case u k of None \<Rightarrow> s k | Some v \<Rightarrow> Some v) else s k)"
  using assms
  by (auto simp: apply_writes_def Let_def map_add_def restrict_map_def
      split: option.splits sum.splits)

lemma apply_writes_count:
  assumes "u ''count'' = Some (PInt b)" and "dict_get s ''count'' (PInt 0) = PInt a"
  shows "\<exists>s'. apply_writes s u = Inr s' \<and> s' ''count'' = Some (PInt (a + b))"
  using assms by (simp add: apply_writes_def Let_def)

lemma node_draft_valid:
  assumes "dict_get s ''revision_number'' (PInt 0) = PInt r"
    and "dict_get s ''count'' (PInt 0) = PInt c"
  shows "node_draft n s response = Inr (map_of
     [(''draft'', PStr (case response of Some t \<Rightarrow> t
                        | None \<Rightarrow> ''Error occurred during content generation.'')),
      (''plan'', dict_get s ''plan'' (PStr '''')),
      (''critique'', dict_get s ''critique''
          (PStr (case response of Some t \<Rightarrow> ''no critique yet'' | None \<Rightarrow> ''''))),
      (''task'', dict_get s ''task'' (PStr '''')),
      (''revision_number'', PInt (r + 1)),
      (''max_revisions'', dict_get s ''max_revisions'' (PInt 2)),
      (''lnode'', PStr n),
      (''count'', PInt (c + 1)),
      (''retrieved_docs'', dict_get s ''retrieved_docs'' (PDocs []))])"
  using assms
  by (cases response) (simp_all add: node_draft_def draft_try_def draft_except_def)

lemma node_finalize_valid:
  assumes "dict_get s ''count'' (PInt 0) = PInt c"
  shows "node_finalize n ph s response = Inr (map_of
     [(''critique'', PStr (case response of Some t \<Rightarrow> t | None \<Rightarrow> ph)),
      (''draft'', dict_get s ''draft'' (PStr '''')),
      (''plan'', dict_get s ''plan'' (PStr '''')),
      (''task'', dict_get s ''task'' (PStr '''')),
      (''revision_number'', dict_get s ''revision_number'' (PInt 0)),
      (''max_revisions'', dict_get s ''max_revisions'' (PInt 2)),
      (''lnode'', PStr n),
      (''count'', PInt (c + 1)),
      (''retrieved_docs'', dict_get s ''retrieved_docs'' (PDocs []))])"
  using assms
  by (cases response) (simp_all add: node_finalize_def finalize_try_def finalize_except_def)

lemma required_split: "set required_keys = insert ''count'' (set last_value_keys)"
  by (simp add: required_keys_def last_value_keys_def insert_commute)

lemma count_notin_last: "''count'' \<notin> set last_value_keys"
  by (simp add: last_value_keys_def)

lemma writes_complete_valid:
  assumes w: "apply_writes s d = Inr s'"
    and d: "\<forall>k\<in>set last_value_keys. \<exists>v. d k = Some v \<and> valid_val k v"
    and c: "s' ''count'' = Some (PInt c)" "0 \<le> c"
  shows "valid_state s' \<and> complete_state s'"
proof -
  have "\<exists>v. s' k = Some v \<and> valid_val k v" if "k \<in> set required_keys" for k
  proof (cases "k = ''count''")
    case True
    with c show ?thesis by (simp add: valid_val_def)
  next
    case False
    with that have kl: "k \<in> set last_value_keys" by (simp add: required_split)
    with d obtain v where "d k = Some v" "valid_val k v" by blast
    with apply_writes_plain[OF w False] kl show ?thesis by simp
  qed
  then show ?thesis
    unfolding valid_state_def complete_state_def list_all_iff by fastforce
qed

lemma valid_fields:
  assumes "valid_state s"
  shows "valid_val ''plan'' (dict_get s ''plan'' (PStr x1))"
    and "valid_val ''critique'' (dict_get s ''critique'' (PStr x2))"
    and "valid_val ''task'' (dict_get s ''task'' (PStr x3))"
    and "valid_val ''draft'' (dict_get s ''draft'' (PStr x4))"
    and "valid_val ''max_revisions'' (dict_get s ''max_revisions'' (PInt i1))"
    and "valid_val ''revision_number'' (dict_get s ''revision_number'' (PInt i2))"
    and "valid_val ''retrieved_docs'' (dict_get s ''retrieved_docs'' (PDocs ds))"
  by (rule valid_get[OF assms], simp add: required_keys_def, simp add: valid_val_def)+

lemma valid_consts:
  "valid_val ''plan'' (PStr x)" "valid_val ''draft'' (PStr x)" "valid_val ''critique'' (PStr x)"
  "valid_val ''lnode'' (PStr x)" "valid_val ''task'' (PStr x)"
  "valid_val ''revision_number'' (PInt i)" "valid_val ''retrieved_docs'' (PDocs ds)"
  by (simp_all add: valid_val_def)

lemma draft_dict_valid:
  assumes "valid_state s"
  shows "\<forall>k\<in>set last_value_keys. \<exists>v. map_of
     [(''draft'', PStr x),
      (''plan'', dict_get s ''plan'' (PStr [])),
      (''critique'', dict_get s ''critique'' (PStr y)),
      (''task'', dict_get s ''task'' (PStr [])),
      (''revision_number'', PInt r),
      (''max_revisions'', dict_get s ''max_revisions'' (PInt 2)),
      (''lnode'', PStr n),
      (''count'', PInt c),
      (''retrieved_docs'', dict_get s ''retrieved_docs'' (PDocs []))] k = Some v \<and> valid_val k v"
  by (simp add: last_value_keys_def valid_fields[OF assms] valid_consts)

lemma finalize_dict_valid:
  assumes "valid_state s"
  shows "\<forall>k\<in>set last_value_keys. \<exists>v. map_of
     [(''critique'', PStr x),
      (''draft'', dict_get s ''draft'' (PStr [])),
      (''plan'', dict_get s ''plan'' (PStr [])),
      (''task'', dict_get s ''task'' (PStr [])),
      (''revision_number'', dict_get s ''revision_number'' (PInt 0)),
      (''max_revisions'', dict_get s ''max_revisions'' (PInt 2)),
      (''lnode'', PStr n),
      (''count'', PInt c),
      (''retrieved_docs'', dict_get s ''retrieved_docs'' (PDocs []))] k = Some v \<and> valid_val k v"
  by (simp add: last_value_keys_def valid_fields[OF assms] valid_consts)

lemma plan_dict_valid:
  assumes "valid_state s"
  shows "\<forall>k\<in>set last_value_keys. \<exists>v. map_of
     [(''plan'', PStr x),
      (''lnode'', PStr ''planner''),
      (''draft'', dict_get s ''draft'' (PStr ''no draft yet'')),
      (''critique'', dict_get s ''critique'' (PStr ''no critique yet'')),
      (''revision_number'', dict_get s ''revision_number'' (PInt 0)),
      (''max_revisions'', dict_get s ''max_revisions'' (PInt 2)),
      (''count'', PInt 1),
      (''task'', dict_get s ''task'' (PStr [])),
      (''retrieved_docs'', PDocs ds)] k = Some v \<and> valid_val k v"
  by (simp add: last_value_keys_def valid_fields[OF assms] valid_consts)

lemma names_ok_course: "names_ok course" and names_ok_esg: "names_ok esg"
  by (simp_all add: names_ok_def course_def esg_def)

lemma rev_in_last: "''revision_number'' \<in> set last_value_keys" 
  and lnode_in_last: "''lnode'' \<in> set last_value_keys"
  by (simp_all add: last_value_keys_def)

lemma planner_step:
  assumes v: "valid_state s"
  shows "\<exists>s'. exec_node g ''planner'' s (Inr docs) (Some t) = Inr s' \<and> valid_state s' \<and> complete_state s'
     \<and> count_of s' = count_of s + 1 \<and> rev_of s' = rev_of s \<and> s' ''lnode'' = Some (PStr ''planner'')
     \<and> dict_get s' ''max_revisions'' (PInt 2) = dict_get s ''max_revisions'' (PInt 2)"
proof -
  from valid_count[OF v] obtain c where c: "0 \<le> c" "dict_get s ''count'' (PInt 0) = PInt c" by blast
  let ?d = "map_of
     [(''plan'', PStr t),
      (''lnode'', PStr ''planner''),
      (''draft'', dict_get s ''draft'' (PStr ''no draft yet'')),
      (''critique'', dict_get s ''critique'' (PStr ''no critique yet'')),
      (''revision_number'', dict_get s ''revision_number'' (PInt 0)),
      (''max_revisions'', dict_get s ''max_revisions'' (PInt 2)),
      (''count'', PInt 1),
      (''task'', dict_get s ''task'' (PStr [])),
      (''retrieved_docs'', PDocs docs)]"
  have run: "run_node g ''planner'' s (Inr docs) (Some t) = Inr ?d"
    by (simp add: run_node_def plan_node_def)
  have dc: "?d ''count'' = Some (PInt 1)" by simp
  from apply_writes_count[of "?d" _ s c, OF dc c(2)] obtain s' where
    w: "apply_writes s ?d = Inr s'" and sc: "s' ''count'' = Some (PInt (c + 1))" by blast
  have ex: "exec_node g ''planner'' s (Inr docs) (Some t) = Inr s'"
    by (simp only: exec_node_def run w sum.case)
  from c have c1: "0 \<le> c + 1" by simp
  have vc: "valid_state s' \<and> complete_state s'"
    by (rule writes_complete_valid[OF w plan_dict_valid[OF v] sc c1])
  have r: "s' ''revision_number'' = Some (dict_get s ''revision_number'' (PInt 0))"
    using apply_writes_plain[OF w, of "''revision_number''"] by (simp add: rev_in_last)
  have l: "s' ''lnode'' = Some (PStr ''planner'')"
    using apply_writes_plain[OF w, of "''lnode''"] by (simp add: lnode_in_last)
  have mx: "s' ''max_revisions'' = Some (dict_get s ''max_revisions'' (PInt 2))"
    using apply_writes_plain[OF w, of "''max_revisions''"] by (simp add: last_value_keys_def)
  have "count_of s' = count_of s + 1" using sc c by (simp add: count_of_def dict_get_def)
  moreover have "rev_of s' = rev_of s" using r by (simp add: rev_of_def dict_get_def)
  moreover have "dict_get s' ''max_revisions'' (PInt 2) = dict_get s ''max_revisions'' (PInt 2)"
    using mx by (simp add: dict_get_def)
  ultimately show ?thesis using ex vc l by blast
qed

lemma drafter_step:
  assumes v: "valid_state s" and n: "names_ok g"
  shows "\<exists>s'. exec_node g (drafter g) s retrieval response = Inr s' \<and> valid_state s' \<and> complete_state s'
     \<and> count_of s' = 2 * count_of s + 1 \<and> rev_of s' = rev_of s + 1
     \<and> s' ''lnode'' = Some (PStr (drafter g))
     \<and> s' ''draft'' = Some (PStr (case response of Some t \<Rightarrow> t
                        | None \<Rightarrow> ''Error occurred during content generation.''))
     \<and> dict_get s' ''max_revisions'' (PInt 2) = dict_get s ''max_revisions'' (PInt 2)"
proof -
  from valid_count[OF v] obtain c where c: "0 \<le> c" "dict_get s ''count'' (PInt 0) = PInt c" by blast
  from valid_rev[OF v] obtain r where r: "dict_get s ''revision_number'' (PInt 0) = PInt r" by blast
  let ?x = "case response of Some t \<Rightarrow> t | None \<Rightarrow> ''Error occurred during content generation.''"
  let ?y = "case response of Some t \<Rightarrow> ''no critique yet'' | None \<Rightarrow> ''''"
  let ?d = "map_of
     [(''draft'', PStr ?x),
      (''plan'', dict_get s ''plan'' (PStr '''')),
      (''critique'', dict_get s ''critique'' (PStr ?y)),
      (''task'', dict_get s ''task'' (PStr '''')),
      (''revision_number'', PInt (r + 1)),
      (''max_revisions'', dict_get s ''max_revisions'' (PInt 2)),
      (''lnode'', PStr (drafter g)),
      (''count'', PInt (c + 1)),
      (''retrieved_docs'', dict_get s ''retrieved_docs'' (PDocs []))]"
  have run: "run_node g (drafter g) s retrieval response = Inr ?d"
  proof -
    have "run_node g (drafter g) s retrieval response = node_draft (drafter g) s response"
      using n by (simp add: run_node_def names_ok_def)
    then show ?thesis by (simp only: node_draft_valid[OF r c(2)])
  qed
  have dc: "?d ''count'' = Some (PInt (c + 1))" by simp
  from apply_writes_count[of "?d" _ s c, OF dc c(2)] obtain s' where
    w: "apply_writes s ?d = Inr s'" and sc: "s' ''count'' = Some (PInt (c + (c + 1)))" by blast
  have ex: "exec_node g (drafter g) s retrieval response = Inr s'"
    by (simp only: exec_node_def run w sum.case)
  from c have c1: "0 \<le> c + (c + 1)" by simp
  have vc: "valid_state s' \<and> complete_state s'"
    by (rule writes_complete_valid[OF w draft_dict_valid[OF v] sc c1])
  have rr: "s' ''revision_number'' = Some (PInt (r + 1))"
    using apply_writes_plain[OF w, of "''revision_number''"] by (simp add: rev_in_last)
  have l: "s' ''lnode'' = Some (PStr (drafter g))"
    using apply_writes_plain[OF w, of "''lnode''"] by (simp add: lnode_in_last)
  have dr: "s' ''draft'' = Some (PStr ?x)"
    using apply_writes_plain[OF w, of "''draft''"] by (simp add: last_value_keys_def)
  have mx: "s' ''max_revisions'' = Some (dict_get s ''max_revisions'' (PInt 2))"
    using apply_writes_plain[OF w, of "''max_revisions''"] by (simp add: last_value_keys_def)
  have "count_of s' = 2 * count_of s + 1" using sc c by (simp add: count_of_def dict_get_def)
  moreover have "rev_of s' = rev_of s + 1" using rr r by (simp add: rev_of_def dict_get_def)
  moreover have "dict_get s' ''max_revisions'' (PInt 2) = dict_get s ''max_revisions'' (PInt 2)"
    using mx by (simp add: dict_get_def)
  ultimately show ?thesis using ex vc l dr by blast
qed

lemma finalizer_step:
  assumes v: "valid_state s" and n: "names_ok g"
  shows "\<exists>s'. exec_node g (finalizer g) s retrieval response = Inr s' \<and> valid_state s' \<and> complete_state s'
     \<and> count_of s' = 2 * count_of s + 1 \<and> rev_of s' = rev_of s
     \<and> s' ''lnode'' = Some (PStr (finalizer g))
     \<and> dict_get s' ''max_revisions'' (PInt 2) = dict_get s ''max_revisions'' (PInt 2)"
proof -
  from valid_count[OF v] obtain c where c: "0 \<le> c" "dict_get s ''count'' (PInt 0) = PInt c" by blast
  let ?x = "case response of Some t \<Rightarrow> t | None \<Rightarrow> finalize_error g"
  let ?d = "map_of
     [(''critique'', PStr ?x),
      (''draft'', dict_get s ''draft'' (PStr '''')),
      (''plan'', dict_get s ''plan'' (PStr '''')),
      (''task'', dict_get s ''task'' (PStr '''')),
      (''revision_number'', dict_get s ''revision_number'' (PInt 0)),
      (''max_revisions'', dict_get s ''max_revisions'' (PInt 2)),
      (''lnode'', PStr (finalizer g)),
      (''count'', PInt (c + 1)),
      (''retrieved_docs'', dict_get s ''retrieved_docs'' (PDocs []))]"
  have run: "run_node g (finalizer g) s retrieval response = Inr ?d"
  proof -
    have "run_node g (finalizer g) s retrieval response
        = node_finalize (finalizer g) (finalize_error g) s response"
      using n by (simp add: run_node_def names_ok_def)
    then show ?thesis by (simp only: node_finalize_valid[OF c(2)])
  qed
  have dc: "?d ''count'' = Some (PInt (c + 1))" by simp
  from apply_writes_count[of "?d" _ s c, OF dc c(2)] obtain s' where
    w: "apply_writes s ?d = Inr s'" and sc: "s' ''count'' = Some (PInt (c + (c + 1)))" by blast
  have ex: "exec_node g (finalizer g) s retrieval response = Inr s'"
    by (simp only: exec_node_def run w sum.case)
  from c have c1: "0 \<le> c + (c + 1)" by simp
  have vc: "valid_state s' \<and> complete_state s'"
    by (rule writes_complete_valid[OF w finalize_dict_valid[OF v] sc c1])
  have rr: "s' ''revision_number'' = Some (dict_get s ''revision_number'' (PInt 0))"
    using apply_writes_plain[OF w, of "''revision_number''"] by (simp add: rev_in_last)
  have l: "s' ''lnode'' = Some (PStr (finalizer g))"
    using apply_writes_plain[OF w, of "''lnode''"] by (simp add: lnode_in_last)
  have mx: "s' ''max_revisions'' = Some (dict_get s ''max_revisions'' (PInt 2))"
    using apply_writes_plain[OF w, of "''max_revisions''"] by (simp add: last_value_keys_def)
  have "count_of s' = 2 * count_of s + 1" using sc c by (simp add: count_of_def dict_get_def)
  moreover have "rev_of s' = rev_of s" using rr by (simp add: rev_of_def dict_get_def)
  moreover have "dict_get s' ''max_revisions'' (PInt 2) = dict_get s ''max_revisions'' (PInt 2)"
    using mx by (simp add: dict_get_def)
  ultimately show ?thesis using ex vc l by blast
qed

section \<open>The step counter and the draft stage\<close>

lemma valid_run_config: "valid_state (run_config topic)"
  by (simp add: valid_state_def required_keys_def run_config_def valid_val_def)

lemma count_run_config: "count_of (run_config topic) = 0" "rev_of (run_config topic) = 0"
  by (simp_all add: count_of_def rev_of_def run_config_def dict_get_def)

lemma writer_node_eq: "writer_node = node_draft (drafter course)"
  and draft_node_eq: "draft_node = node_draft (drafter esg)"
  and reflection_node_eq: "reflection_node = node_finalize (finalizer course) (finalize_error course)"
  and finalize_node_eq: "finalize_node = node_finalize (finalizer esg) (finalize_error esg)"
  by (simp_all add: writer_node_def draft_node_def reflection_node_def finalize_node_def
      course_def esg_def)

lemma count_of_lookup: "valid_state s \<Longrightarrow> complete_state s \<Longrightarrow> s ''count'' = Some (PInt (count_of s))"
proof -
  assume v: "valid_state s" and c: "complete_state s"
  from c obtain x where x: "s ''count'' = Some x"
    by (auto simp: complete_state_def required_keys_def)
  from valid_count[OF v] obtain n where "dict_get s ''count'' (PInt 0) = PInt n" by blast
  with x show ?thesis by (simp add: count_of_def dict_get_def)
qed

text \<open>
  Claim C2 says that every stage step raises \<open>count\<close> by exactly 1. The planner returns
  \<^verbatim>\<open>"count": 1\<close>, which the additive channel turns into one more. The writer returns
  \<^verbatim>\<open>state.get("count", 0) + 1\<close>, which the same channel adds to the stored count: on the
  state the planner leaves (count 1) the writer's step ends with count 3, not 2.
\<close>

theorem writer_step_adds_count_twice:
  "\<exists>s1 d s2. exec_node course ''planner'' (run_config ''T'') (Inr []) (Some ''plan'') = Inr s1
     \<and> s1 ''count'' = Some (PInt 1)
     \<and> writer_node s1 (Some ''draft'') = Inr d
     \<and> d ''count'' = Some (PInt 2)
     \<and> exec_node course ''course designer'' s1 (Inr []) (Some ''draft'') = Inr s2
     \<and> s2 ''count'' = Some (PInt 3)"
proof -
  from planner_step[OF valid_run_config, of course "''T''" "[]" "''plan''"]
  obtain s1 where s1: "exec_node course ''planner'' (run_config ''T'') (Inr []) (Some ''plan'') = Inr s1"
    "valid_state s1" "complete_state s1" "count_of s1 = 1" "rev_of s1 = 0"
    by (auto simp: count_run_config)
  have c1: "s1 ''count'' = Some (PInt 1)" using count_of_lookup[OF s1(2,3)] s1(4) by simp
  from valid_rev[OF s1(2)] obtain r where r: "dict_get s1 ''revision_number'' (PInt 0) = PInt r" by blast
  have g1: "dict_get s1 ''count'' (PInt 0) = PInt 1" using c1 by (simp add: dict_get_def)
  obtain d where d: "writer_node s1 (Some ''draft'') = Inr d" "d ''count'' = Some (PInt 2)"
    using node_draft_valid[OF r g1, of "''course designer''" "Some ''draft''"]
    by (simp add: writer_node_def)
  from drafter_step[OF s1(2) names_ok_course, of "Inr []" "Some ''draft''"]
  obtain s2 where s2: "exec_node course (drafter course) s1 (Inr []) (Some ''draft'') = Inr s2"
    "valid_state s2" "complete_state s2" "count_of s2 = 3"
    using s1(4) by auto
  have c2: "s2 ''count'' = Some (PInt 3)" using count_of_lookup[OF s2(2,3)] s2(4) by simp
  have "drafter course = ''course designer''" by (simp add: course_def)
  with s1(1) c1 d s2(1) c2 show ?thesis by auto
qed

lemma deployment_names: "g = course \<or> g = esg \<Longrightarrow> names_ok g"
  using names_ok_course names_ok_esg by blast

lemma should_continue_reads:
  assumes "dict_get a ''revision_number'' (PInt 0) = dict_get b ''revision_number'' (PInt 0)"
    and "dict_get a ''max_revisions'' (PInt 2) = dict_get b ''max_revisions'' (PInt 2)"
  shows "should_continue f a = should_continue f b"
  using assms by (simp add: should_continue_def)

lemma complete_draft_dict: "complete_state (map_of
     [(''draft'', x1), (''plan'', x2), (''critique'', x3), (''task'', x4),
      (''revision_number'', x5), (''max_revisions'', x6), (''lnode'', x7),
      (''count'', x8), (''retrieved_docs'', x9)])"
  by (simp add: complete_state_def required_keys_def)

lemma draft_exec:
  assumes r: "dict_get s ''revision_number'' (PInt 0) = PInt r"
    and c: "dict_get s ''count'' (PInt 0) = PInt c"
    and ok: "names_ok g"
  shows "\<exists>d s'. node_draft (drafter g) s response = Inr d
     \<and> d ''revision_number'' = Some (PInt (r + 1))
     \<and> d ''count'' = Some (PInt (c + 1))
     \<and> d ''draft'' = Some (PStr (case response of Some t \<Rightarrow> t
                        | None \<Rightarrow> ''Error occurred during content generation.''))
     \<and> complete_state d
     \<and> exec_node g (drafter g) s retrieval response = Inr s'
     \<and> s' ''lnode'' = Some (PStr (drafter g))
     \<and> s' ''count'' = Some (PInt (c + (c + 1)))
     \<and> dict_get s' ''revision_number'' (PInt 0) = PInt (r + 1)
     \<and> dict_get s' ''max_revisions'' (PInt 2) = dict_get s ''max_revisions'' (PInt 2)"
proof -
  let ?x = "case response of Some t \<Rightarrow> t | None \<Rightarrow> ''Error occurred during content generation.''"
  let ?y = "case response of Some t \<Rightarrow> ''no critique yet'' | None \<Rightarrow> ''''"
  let ?d = "map_of
     [(''draft'', PStr ?x),
      (''plan'', dict_get s ''plan'' (PStr '''')),
      (''critique'', dict_get s ''critique'' (PStr ?y)),
      (''task'', dict_get s ''task'' (PStr '''')),
      (''revision_number'', PInt (r + 1)),
      (''max_revisions'', dict_get s ''max_revisions'' (PInt 2)),
      (''lnode'', PStr (drafter g)),
      (''count'', PInt (c + 1)),
      (''retrieved_docs'', dict_get s ''retrieved_docs'' (PDocs []))]"
  have nd: "node_draft (drafter g) s response = Inr ?d"
    by (simp only: node_draft_valid[OF r c])
  have run: "run_node g (drafter g) s retrieval response = Inr ?d"
  proof -
    have "run_node g (drafter g) s retrieval response = node_draft (drafter g) s response"
      using ok by (simp add: run_node_def names_ok_def)
    then show ?thesis by (simp only: nd)
  qed
  have dc: "?d ''count'' = Some (PInt (c + 1))" by simp
  from apply_writes_count[of "?d" _ s c, OF dc c] obtain s' where
    w: "apply_writes s ?d = Inr s'" and sc: "s' ''count'' = Some (PInt (c + (c + 1)))" by blast
  have ex: "exec_node g (drafter g) s retrieval response = Inr s'"
    by (simp only: exec_node_def run w sum.case)
  have rr: "s' ''revision_number'' = Some (PInt (r + 1))"
    using apply_writes_plain[OF w, of "''revision_number''"] by (simp add: rev_in_last)
  have l: "s' ''lnode'' = Some (PStr (drafter g))"
    using apply_writes_plain[OF w, of "''lnode''"] by (simp add: lnode_in_last)
  have mx: "s' ''max_revisions'' = Some (dict_get s ''max_revisions'' (PInt 2))"
    using apply_writes_plain[OF w, of "''max_revisions''"] by (simp add: last_value_keys_def)
  have d1: "?d ''revision_number'' = Some (PInt (r + 1))" by simp
  have d2: "?d ''draft'' = Some (PStr ?x)" by simp
  have d3: "complete_state ?d" by (rule complete_draft_dict)
  have m1: "dict_get s' ''revision_number'' (PInt 0) = PInt (r + 1)"
    using rr by (simp add: dict_get_def)
  have m2: "dict_get s' ''max_revisions'' (PInt 2) = dict_get s ''max_revisions'' (PInt 2)"
    using mx by (simp add: dict_get_def)
  show ?thesis
    using nd d1 dc d2 d3 ex l sc m1 m2 by blast
qed

text \<open>
  Claim C10: when the generation call of the draft stage raises, the stage still returns
  a dict with all nine keys, whose revision number and count are those of a successful
  call and whose draft is the fixed placeholder; the engine stores it as a step of the
  drafter (no exception reaches it), and the routing after it is the routing after a
  successful draft.
\<close>

theorem failed_draft_counts_as_revision:
  assumes r: "dict_get s ''revision_number'' (PInt 0) = PInt r"
    and c: "dict_get s ''count'' (PInt 0) = PInt c"
    and g: "(g, node) = (course, writer_node) \<or> (g, node) = (esg, draft_node)"
  shows "\<exists>d d' s1 s2.
       node s None = Inr d \<and> node s (Some text) = Inr d'
     \<and> d ''revision_number'' = Some (PInt (r + 1)) \<and> d' ''revision_number'' = Some (PInt (r + 1))
     \<and> d ''count'' = Some (PInt (c + 1)) \<and> d' ''count'' = Some (PInt (c + 1))
     \<and> d ''draft'' = Some (PStr ''Error occurred during content generation.'')
     \<and> complete_state d
     \<and> exec_node g (drafter g) s retrieval None = Inr s1
     \<and> exec_node g (drafter g) s retrieval (Some text) = Inr s2
     \<and> s1 ''lnode'' = Some (PStr (drafter g))
     \<and> s1 ''count'' = s2 ''count''
     \<and> route g (drafter g) s1 = route g (drafter g) s2"
proof -
  from g have ok: "names_ok g" and nd: "node = node_draft (drafter g)"
    using names_ok_course names_ok_esg writer_node_eq draft_node_eq by auto
  from draft_exec[OF r c ok, of None retrieval] obtain d s1 where
    a: "node_draft (drafter g) s None = Inr d" "d ''revision_number'' = Some (PInt (r + 1))"
       "d ''count'' = Some (PInt (c + 1))"
       "d ''draft'' = Some (PStr ''Error occurred during content generation.'')"
       "complete_state d" "exec_node g (drafter g) s retrieval None = Inr s1"
       "s1 ''lnode'' = Some (PStr (drafter g))" "s1 ''count'' = Some (PInt (c + (c + 1)))"
       "dict_get s1 ''revision_number'' (PInt 0) = PInt (r + 1)"
       "dict_get s1 ''max_revisions'' (PInt 2) = dict_get s ''max_revisions'' (PInt 2)"
    by auto
  from draft_exec[OF r c ok, of "Some text" retrieval] obtain d' s2 where
    b: "node_draft (drafter g) s (Some text) = Inr d'" "d' ''revision_number'' = Some (PInt (r + 1))"
       "d' ''count'' = Some (PInt (c + 1))"
       "exec_node g (drafter g) s retrieval (Some text) = Inr s2"
       "s2 ''count'' = Some (PInt (c + (c + 1)))"
       "dict_get s2 ''revision_number'' (PInt 0) = PInt (r + 1)"
       "dict_get s2 ''max_revisions'' (PInt 2) = dict_get s ''max_revisions'' (PInt 2)"
    by auto
  have "should_continue (finalizer g) s1 = should_continue (finalizer g) s2"
    by (rule should_continue_reads) (simp_all add: a b)
  then have "route g (drafter g) s1 = route g (drafter g) s2"
    by (simp add: route_def)
  with a b nd show ?thesis by auto
qed

theorem failed_draft_counts_as_revision_witness:
  "\<exists>d d' s1 s2.
       writer_node (run_config ''T'') None = Inr d
     \<and> writer_node (run_config ''T'') (Some ''text'') = Inr d'
     \<and> d ''revision_number'' = Some (PInt 1) \<and> d' ''revision_number'' = Some (PInt 1)
     \<and> d ''count'' = Some (PInt 1) \<and> d' ''count'' = Some (PInt 1)
     \<and> d ''draft'' = Some (PStr ''Error occurred during content generation.'')
     \<and> complete_state d
     \<and> exec_node course ''course designer'' (run_config ''T'') (Inr []) None = Inr s1
     \<and> exec_node course ''course designer'' (run_config ''T'') (Inr []) (Some ''text'') = Inr s2
     \<and> s1 ''lnode'' = Some (PStr ''course designer'')
     \<and> s1 ''count'' = s2 ''count''
     \<and> route course ''course designer'' s1 = route course ''course designer'' s2"
proof -
  have r: "dict_get (run_config ''T'') ''revision_number'' (PInt 0) = PInt 0"
    and c: "dict_get (run_config ''T'') ''count'' (PInt 0) = PInt 0"
    by (simp_all add: run_config_def dict_get_def)
  have n: "drafter course = ''course designer''" by (simp add: course_def)
  show ?thesis
    using failed_draft_counts_as_revision[OF r c, of course writer_node "''text''" "Inr []"]
    by (simp add: n)
qed

section \<open>Steps of the engine\<close>

text \<open>The latest checkpoint of a thread was written by node \<open>last_node\<close> (at step 1 or
  later), holds a valid state with revision number \<open>r\<close> and the run's limit of 2
  revisions, and names \<open>nxt\<close> as the next nodes.\<close>

definition at_node :: "log \<Rightarrow> string \<Rightarrow> string list \<Rightarrow> int \<Rightarrow> bool" where
  "at_node lg last_node nxt r =
     (case lg of
        [] \<Rightarrow> False
      | c # _ \<Rightarrow> valid_state (values_cp c)
          \<and> values_cp c ''lnode'' = Some (PStr last_node)
          \<and> next_cp c = nxt
          \<and> rev_of (values_cp c) = r
          \<and> dict_get (values_cp c) ''max_revisions'' (PInt 2) = PInt 2
          \<and> \<not> step c < 1)"

lemma rev_of_get: "valid_state s \<Longrightarrow> dict_get s ''revision_number'' (PInt 0) = PInt (rev_of s)"
  using valid_rev[of s] by (auto simp: rev_of_def)

lemma route_planner: "route g ''planner'' s = [drafter g]"
  by (simp add: route_def)

lemma route_finalizer: "names_ok g \<Longrightarrow> route g (finalizer g) s = [drafter g]"
  by (simp add: route_def names_ok_def)

lemma route_drafter:
  assumes "names_ok g" "valid_state s" "dict_get s ''max_revisions'' (PInt 2) = PInt 2"
  shows "route g (drafter g) s = (if 2 < rev_of s then [] else [finalizer g])"
    and "should_continue (finalizer g) s = (if 2 < rev_of s then END else Node (finalizer g))"
  using assms rev_of_get[OF assms(2)]
  by (simp_all add: route_def names_ok_def should_continue_def)

lemma run_step_drafter:
  assumes ok: "names_ok g" and at: "at_node lg l [drafter g] r"
  shows "\<exists>cp. run_step g E lg = (None, cp # lg)
     \<and> at_node (cp # lg) (drafter g) (if 2 < r + 1 then [] else [finalizer g]) (r + 1)"
proof -
  from at obtain c rest where lg: "lg = c # rest" and v: "valid_state (values_cp c)"
    and nx: "next_cp c = [drafter g]" and r: "rev_of (values_cp c) = r"
    and mx: "dict_get (values_cp c) ''max_revisions'' (PInt 2) = PInt 2" and st: "\<not> step c < 1"
    by (cases lg) (auto simp: at_node_def)
  let ?docs = "retrieve_relevant_documents E (dict_get (values_cp c) ''task'' (PStr ''''))"
  from drafter_step[OF v ok, of ?docs "generate E (length lg)"] obtain s' where
    ex: "exec_node g (drafter g) (values_cp c) ?docs (generate E (length lg)) = Inr s'"
    and s': "valid_state s'" "rev_of s' = rev_of (values_cp c) + 1"
       "s' ''lnode'' = Some (PStr (drafter g))"
       "dict_get s' ''max_revisions'' (PInt 2) = dict_get (values_cp c) ''max_revisions'' (PInt 2)"
    by blast
  have rt: "route g (drafter g) s' = (if 2 < r + 1 then [] else [finalizer g])"
    using route_drafter(1)[OF ok s'(1)] s'(2,4) mx r by simp
  have "run_step g E lg = (None, write_checkpoint E lg s' (route g (drafter g) s'))"
    using ex by (simp add: run_step_def lg nx)
  moreover have "at_node (write_checkpoint E lg s' (route g (drafter g) s')) (drafter g)
      (if 2 < r + 1 then [] else [finalizer g]) (r + 1)"
    using s' rt mx r st by (simp add: at_node_def write_checkpoint_def lg)
  ultimately show ?thesis by (auto simp: write_checkpoint_def)
qed

lemma run_step_finalizer:
  assumes ok: "names_ok g" and at: "at_node lg l [finalizer g] r"
  shows "\<exists>cp. run_step g E lg = (None, cp # lg)
     \<and> at_node (cp # lg) (finalizer g) [drafter g] r"
proof -
  from at obtain c rest where lg: "lg = c # rest" and v: "valid_state (values_cp c)"
    and nx: "next_cp c = [finalizer g]" and r: "rev_of (values_cp c) = r"
    and mx: "dict_get (values_cp c) ''max_revisions'' (PInt 2) = PInt 2" and st: "\<not> step c < 1"
    by (cases lg) (auto simp: at_node_def)
  let ?docs = "retrieve_relevant_documents E (dict_get (values_cp c) ''task'' (PStr ''''))"
  from finalizer_step[OF v ok, of ?docs "generate E (length lg)"] obtain s' where
    ex: "exec_node g (finalizer g) (values_cp c) ?docs (generate E (length lg)) = Inr s'"
    and s': "valid_state s'" "rev_of s' = rev_of (values_cp c)"
       "s' ''lnode'' = Some (PStr (finalizer g))"
       "dict_get s' ''max_revisions'' (PInt 2) = dict_get (values_cp c) ''max_revisions'' (PInt 2)"
    by blast
  have "run_step g E lg = (None, write_checkpoint E lg s' (route g (finalizer g) s'))"
    using ex by (simp add: run_step_def lg nx)
  moreover have "at_node (write_checkpoint E lg s' (route g (finalizer g) s')) (finalizer g)
      [drafter g] r"
    using s' mx r st by (simp add: at_node_def write_checkpoint_def lg route_finalizer[OF ok])
  ultimately show ?thesis by (auto simp: write_checkpoint_def)
qed

lemma config_dict_valid:
  "\<forall>k\<in>set last_value_keys. \<exists>v. run_config topic k = Some v \<and> valid_val k v"
  by (simp add: last_value_keys_def run_config_def valid_val_def)

lemma retrieval_returns:
  "retriever E = Some r \<Longrightarrow> \<exists>docs. retrieve_relevant_documents E task = Inr docs"
  by (cases "r task") (simp_all add: retrieve_relevant_documents_def)

lemma retrieval_raises:
  "retriever E = None \<Longrightarrow> retrieve_relevant_documents E task = Inl AttributeError"
  by (simp add: retrieve_relevant_documents_def)

lemma invoke_start:
  assumes gen: "generate E 2 = Some t" and ret: "retriever E = Some r"
  shows "\<exists>cp cp0 cpi. graph_invoke g E (Some (run_config topic)) [] = (None, [cp, cp0, cpi])
     \<and> at_node [cp, cp0, cpi] ''planner'' [drafter g] 0 \<and> step cp0 = 0 \<and> step cpi = - 1"
proof -
  let ?c0 = "channels []"
  have dc: "run_config topic ''count'' = Some (PInt 0)" by (simp add: run_config_def)
  have e0: "dict_get ?c0 ''count'' (PInt 0) = PInt 0" by (simp add: channels_def dict_get_def)
  from apply_writes_count[of "run_config topic" _ ?c0 0, OF dc e0] obtain s0 where
    w: "apply_writes ?c0 (run_config topic) = Inr s0"
    and sc: "s0 ''count'' = Some (PInt 0)" by auto
  have v0: "valid_state s0"
    using writes_complete_valid[OF w config_dict_valid sc] by simp
  have r0: "s0 ''revision_number'' = Some (PInt 0)"
    using apply_writes_plain[OF w, of "''revision_number''"]
    by (simp add: rev_in_last run_config_def)
  have m0: "s0 ''max_revisions'' = Some (PInt 2)"
    using apply_writes_plain[OF w, of "''max_revisions''"]
    by (simp add: last_value_keys_def run_config_def)
  let ?lgi = "write_checkpoint E [] ?c0 [''__start__'']"
  let ?lg0 = "write_checkpoint E ?lgi s0 [''planner'']"
  from retrieval_returns[OF ret] obtain docs where
    rd: "retrieve_relevant_documents E (dict_get s0 ''task'' (PStr '''')) = Inr docs" by blast
  from planner_step[OF v0, of g docs t] obtain s1 where
    ex: "exec_node g ''planner'' s0 (Inr docs) (Some t) = Inr s1"
    and s1: "valid_state s1" "rev_of s1 = rev_of s0" "s1 ''lnode'' = Some (PStr ''planner'')"
      "dict_get s1 ''max_revisions'' (PInt 2) = dict_get s0 ''max_revisions'' (PInt 2)"
    by blast
  have gen': "generate E (Suc (Suc 0)) = Some t" using gen by (simp add: numeral_2_eq_2)
  have rs: "run_step g E ?lg0 = (None, write_checkpoint E ?lg0 s1 (route g ''planner'' s1))"
    using ex gen' rd by (simp add: run_step_def write_checkpoint_def)
  have gi: "graph_invoke g E (Some (run_config topic)) []
      = (None, write_checkpoint E ?lg0 s1 (route g ''planner'' s1))"
    using w rs by (simp add: graph_invoke_def Let_def)
  have "at_node (write_checkpoint E ?lg0 s1 (route g ''planner'' s1)) ''planner'' [drafter g] 0"
    using s1 r0 m0
    by (simp add: at_node_def write_checkpoint_def route_planner rev_of_def dict_get_def)
  with gi show ?thesis by (auto simp: write_checkpoint_def)
qed

text \<open>Without a retriever the planner raises before its generation call, and the first
  \<^verbatim>\<open>invoke\<close> of a thread leaves only the two checkpoints of the input.\<close>

lemma invoke_without_retriever:
  assumes ret: "retriever E = None"
  shows "\<exists>cp0 cpi. graph_invoke g E (Some (run_config topic)) [] = (Some AttributeError, [cp0, cpi])
     \<and> step cp0 = 0 \<and> step cpi = - 1"
proof -
  let ?c0 = "channels []"
  have dc: "run_config topic ''count'' = Some (PInt 0)" by (simp add: run_config_def)
  have e0: "dict_get ?c0 ''count'' (PInt 0) = PInt 0" by (simp add: channels_def dict_get_def)
  from apply_writes_count[of "run_config topic" _ ?c0 0, OF dc e0] obtain s0 where
    w: "apply_writes ?c0 (run_config topic) = Inr s0" by auto
  let ?lgi = "write_checkpoint E [] ?c0 [''__start__'']"
  let ?lg0 = "write_checkpoint E ?lgi s0 [''planner'']"
  have ex: "exec_node g ''planner'' s0 (Inl AttributeError) resp = Inl AttributeError" for resp
    by (simp add: exec_node_def run_node_def plan_node_def)
  have rs: "run_step g E ?lg0 = (Some AttributeError, ?lg0)"
    using ex retrieval_raises[OF ret] by (simp add: run_step_def write_checkpoint_def)
  have "graph_invoke g E (Some (run_config topic)) [] = (Some AttributeError, ?lg0)"
    using w rs by (simp add: graph_invoke_def Let_def)
  then show ?thesis by (auto simp: write_checkpoint_def)
qed

lemma executed_cons:
  assumes "at_node (cp # lg) l nxt r"
  shows "executed E (cp # lg) = executed E lg @ [l]"
  using assms by (simp add: at_node_def executed_def dict_get_def py_str_def)

lemma executed_initial: "step cp0 = 0 \<Longrightarrow> step cpi = - 1 \<Longrightarrow> executed E [cp0, cpi] = []"
  by (simp add: executed_def)

section \<open>Passes of the run loop\<close>

text \<open>The controller after a pass that stored the log \<open>lg\<close> and counted the pass at
  position \<open>i\<close>; and the loop's view of it: the counter read at the current thread's
  position and the current thread's log.\<close>

definition bump :: "gui \<Rightarrow> log \<Rightarrow> nat \<Rightarrow> gui" where
  "bump G lg i = G\<lparr>store := (store G)(thread_id G := lg),
                    iterations := (iterations G)[i := iterations G ! i + 1]\<rparr>"

definition running :: "gui \<Rightarrow> nat \<Rightarrow> int \<Rightarrow> log \<Rightarrow> bool" where
  "running G i k lg = (py_index (iterations G) (thread_id G) = Inr i
     \<and> iterations G ! i = k \<and> current_log G = lg)"

lemma running_bump: "running G i k lg \<Longrightarrow> running (bump G lg' i) i (k + 1) lg'"
  using py_index_bound[of "iterations G" "thread_id G" i]
  by (simp add: running_def bump_def py_index_update current_log_def)

lemma thread_id_bump: "thread_id (bump G lg i) = thread_id G"
  by (simp add: bump_def)

lemma current_log_bump: "current_log (bump G lg i) = lg"
  by (simp add: bump_def current_log_def)

lemma str_tuple_nonempty: "str_tuple t \<noteq> ''''"
  by (cases t rule: str_tuple.cases) simp_all

lemma count_get: "valid_state s \<Longrightarrow> dict_get s ''count'' (PInt 0) = PInt (count_of s)"
  using valid_count[of s] by (auto simp: count_of_def)

lemma coerce_int_PInt: "coerce_int E (PInt n) = Inr n"
  by (simp add: coerce_int_def py_int_def)

lemma disp_at_node:
  assumes cl: "current_log G = lg" and at: "at_node lg l nxt r"
  shows "\<exists>a. get_disp_state E G = (l, str_tuple nxt, thread_id G, r, a)"
proof -
  from at obtain c rest where lg: "lg = c # rest" and v: "valid_state (values_cp c)"
    and ln: "values_cp c ''lnode'' = Some (PStr l)"
    and nx: "next_cp c = nxt" and r: "rev_of (values_cp c) = r"
    by (cases lg) (auto simp: at_node_def)
  have ln': "dict_get (values_cp c) ''lnode'' (PStr []) = PStr l"
    using ln by (simp add: dict_get_def)
  have "disp_try E G = Inr (l, str_tuple nxt, thread_id G, r, count_of (values_cp c))"
    using nx r
    by (simp add: disp_try_def cl lg graph_get_state_def Let_def count_get[OF v] rev_of_get[OF v]
        coerce_int_PInt ln' py_str_def)
  then show ?thesis by (simp add: get_disp_state_def)
qed

lemma iteration_node:
  assumes inv: "graph_invoke g E config (current_log G) = (None, lg)"
    and at: "at_node lg l nxt r"
  shows "\<exists>rp. iteration g E sa config G i = (rp, bump G lg i, l \<in> set sa)
     \<and> fst rp = l \<and> fst (snd rp) = str_tuple nxt"
proof -
  from disp_at_node[OF current_log_bump at, of E G i] obtain a where
    d: "get_disp_state E (bump G lg i) = (l, str_tuple nxt, thread_id (bump G lg i), r, a)"
    by blast
  have "iteration g E sa config G i
      = ((l, str_tuple nxt, thread_id (bump G lg i), r, a), bump G lg i, l \<in> set sa)"
    using d by (simp add: iteration_def inv bump_def[symmetric] Let_def str_tuple_nonempty)
  then show ?thesis by simp
qed

lemma run_loop_node:
  assumes run: "running G i k (current_log G)" and lt: "k < max_iterations"
    and inv: "graph_invoke g E config (current_log G) = (None, lg)"
    and at: "at_node lg l nxt r"
  shows "\<exists>rp. fst rp = l \<and> fst (snd rp) = str_tuple nxt
     \<and> run_loop g E sa config G =
        (if l \<in> set sa then ([rp], bump G lg i)
         else (rp # fst (run_loop g E sa None (bump G lg i)),
               snd (run_loop g E sa None (bump G lg i))))"
proof -
  from iteration_node[OF inv at, of sa i] obtain rp where
    it: "iteration g E sa config G i = (rp, bump G lg i, l \<in> set sa)"
    and rp: "fst rp = l" "fst (snd rp) = str_tuple nxt" by blast
  from run have ix: "py_index (iterations G) (thread_id G) = Inr i"
    and k: "iterations G ! i = k" by (simp_all add: running_def)
  have "run_loop g E sa config G =
        (if l \<in> set sa then ([rp], bump G lg i)
         else (rp # fst (run_loop g E sa None (bump G lg i)),
               snd (run_loop g E sa None (bump G lg i))))"
    by (subst run_loop.simps) (simp add: ix k lt it split: prod.splits)
  with rp show ?thesis by blast
qed

lemma iteration_idle:
  assumes cl: "current_log G = c # rest" and nx: "next_cp c = []"
    and it: "iteration g E sa None G i = (rp, G', h)"
  shows "current_log G' = current_log G \<and> thread_id G' = thread_id G"
proof -
  have inv: "graph_invoke g E None (current_log G)
      = (if idle_raises E then Some ValueError else None, current_log G)"
    by (simp add: graph_invoke_def run_step_def cl nx)
  show ?thesis
  proof (cases "idle_raises E")
    case True
    with it inv show ?thesis by (auto simp: iteration_def current_log_def)
  next
    case False
    with it inv show ?thesis
      by (auto simp: iteration_def current_log_def Let_def split: prod.splits)
  qed
qed

lemma idle_loop:
  assumes "config = None" and "current_log G = c # rest" and "next_cp c = []"
  shows "current_log (snd (run_loop g E sa config G)) = current_log G
     \<and> thread_id (snd (run_loop g E sa config G)) = thread_id G"
  using assms
proof (induction g E sa config G rule: run_loop.induct)
  case (1 g E sa config G)
  show ?case
  proof (cases "py_index (iterations G) (thread_id G)")
    case (Inl e)
    then show ?thesis by (subst run_loop.simps, subst run_loop.simps) simp
  next
    case (Inr i)
    show ?thesis
    proof (cases "iterations G ! i < max_iterations")
      case False
      with Inr show ?thesis by (subst run_loop.simps, subst run_loop.simps) simp
    next
      case True
      obtain rp G' h where it: "iteration g E sa config G i = (rp, G', h)"
        by (cases "iteration g E sa config G i") auto
      from iteration_idle[OF "1.prems"(2,3), of g E sa i rp G' h] it "1.prems"(1)
      have same: "current_log G' = current_log G" "thread_id G' = thread_id G" by simp_all
      show ?thesis
      proof (cases h)
        case True
        with Inr \<open>iterations G ! i < max_iterations\<close> it same show ?thesis
          by (subst run_loop.simps, subst run_loop.simps) simp
      next
        case False
        have cl': "current_log G' = c # rest" using same "1.prems"(2) by simp
        from "1.IH"[OF Inr True it[symmetric] refl _ refl cl' "1.prems"(3)] False
        have ih: "current_log (snd (run_loop g E sa None G')) = current_log G'
           \<and> thread_id (snd (run_loop g E sa None G')) = thread_id G'" by simp
        have "run_loop g E sa config G
            = (rp # fst (run_loop g E sa None G'), snd (run_loop g E sa None G'))"
          using Inr True it False by (subst run_loop.simps) (simp split: prod.splits)
        with ih same show ?thesis by simp
      qed
    qed
  qed
qed

lemma running_log: "running G i k lg \<Longrightarrow> running G i k (current_log G) \<and> current_log G = lg"
  by (simp add: running_def)

lemma advance_drafter:
  assumes ok: "names_ok g" and run: "running G i k lg" and lt: "k < max_iterations"
    and at: "at_node lg l [drafter g] r" and sa: "drafter g \<notin> set sa"
  shows "\<exists>rp cp. fst rp = drafter g
     \<and> run_loop g E sa None G =
         (rp # fst (run_loop g E sa None (bump G (cp # lg) i)),
          snd (run_loop g E sa None (bump G (cp # lg) i)))
     \<and> at_node (cp # lg) (drafter g) (if 2 < r + 1 then [] else [finalizer g]) (r + 1)
     \<and> running (bump G (cp # lg) i) i (k + 1) (cp # lg)"
proof -
  from running_log[OF run] have run': "running G i k (current_log G)" and cl: "current_log G = lg"
    by blast+
  from run_step_drafter[OF ok at, of E] obtain cp where
    rs: "run_step g E lg = (None, cp # lg)"
    and at': "at_node (cp # lg) (drafter g) (if 2 < r + 1 then [] else [finalizer g]) (r + 1)"
    by blast
  have inv: "graph_invoke g E None (current_log G) = (None, cp # lg)"
    using rs by (simp add: graph_invoke_def cl)
  from run_loop_node[OF run' lt inv at', of sa] sa obtain rp where
    "fst rp = drafter g"
    "run_loop g E sa None G =
         (rp # fst (run_loop g E sa None (bump G (cp # lg) i)),
          snd (run_loop g E sa None (bump G (cp # lg) i)))"
    by auto
  with at' running_bump[OF run, of "cp # lg"] show ?thesis by blast
qed

lemma advance_finalizer:
  assumes ok: "names_ok g" and run: "running G i k lg" and lt: "k < max_iterations"
    and at: "at_node lg l [finalizer g] r" and sa: "finalizer g \<notin> set sa"
  shows "\<exists>rp cp. fst rp = finalizer g
     \<and> run_loop g E sa None G =
         (rp # fst (run_loop g E sa None (bump G (cp # lg) i)),
          snd (run_loop g E sa None (bump G (cp # lg) i)))
     \<and> at_node (cp # lg) (finalizer g) [drafter g] r
     \<and> running (bump G (cp # lg) i) i (k + 1) (cp # lg)"
proof -
  from running_log[OF run] have run': "running G i k (current_log G)" and cl: "current_log G = lg"
    by blast+
  from run_step_finalizer[OF ok at, of E] obtain cp where
    rs: "run_step g E lg = (None, cp # lg)"
    and at': "at_node (cp # lg) (finalizer g) [drafter g] r"
    by blast
  have inv: "graph_invoke g E None (current_log G) = (None, cp # lg)"
    using rs by (simp add: graph_invoke_def cl)
  from run_loop_node[OF run' lt inv at', of sa] sa obtain rp where
    "fst rp = finalizer g"
    "run_loop g E sa None G =
         (rp # fst (run_loop g E sa None (bump G (cp # lg) i)),
          snd (run_loop g E sa None (bump G (cp # lg) i)))"
    by auto
  with at' running_bump[OF run, of "cp # lg"] show ?thesis by blast
qed

text \<open>The controller as \<^verbatim>\<open>run_agent\<close> sets it up for a new run.\<close>

definition new_thread :: "gui \<Rightarrow> gui" where
  "new_thread G = G\<lparr>iterations := iterations G @ [0],
                     thread_id := thread_id G + 1,
                     threads := threads G @ [thread_id G + 1]\<rparr>"

lemma run_agent_start: "run_agent g E True topic sa G
    = run_loop g E sa (Some (run_config topic)) (new_thread G)"
  by (simp add: run_agent_def new_thread_def)

lemma running_new_thread:
  assumes "thread_id G + 1 = int (length (iterations G))" and "store G (thread_id G + 1) = []"
  shows "running (new_thread G) (length (iterations G)) 0 []"
  using assms by (simp add: running_def new_thread_def py_index_def current_log_def)

lemma advance_planner:
  assumes run: "running G i k []" and lt: "k < max_iterations"
    and gen: "generate E 2 = Some t" and ret: "retriever E = Some r"
  shows "\<exists>rp cp cp0 cpi. fst rp = ''planner'' \<and> fst (snd rp) = str_tuple [drafter g]
     \<and> run_loop g E sa (Some (run_config topic)) G =
        (if ''planner'' \<in> set sa then ([rp], bump G [cp, cp0, cpi] i)
         else (rp # fst (run_loop g E sa None (bump G [cp, cp0, cpi] i)),
               snd (run_loop g E sa None (bump G [cp, cp0, cpi] i))))
     \<and> at_node [cp, cp0, cpi] ''planner'' [drafter g] 0 \<and> step cp0 = 0 \<and> step cpi = - 1
     \<and> running (bump G [cp, cp0, cpi] i) i (k + 1) [cp, cp0, cpi]"
proof -
  from running_log[OF run] have run': "running G i k (current_log G)" and cl: "current_log G = []"
    by blast+
  from invoke_start[OF gen ret, of g topic] obtain cp cp0 cpi where
    gi: "graph_invoke g E (Some (run_config topic)) [] = (None, [cp, cp0, cpi])"
    and at: "at_node [cp, cp0, cpi] ''planner'' [drafter g] 0" and st: "step cp0 = 0" "step cpi = - 1" by blast
  have inv: "graph_invoke g E (Some (run_config topic)) (current_log G) = (None, [cp, cp0, cpi])"
    using gi by (simp add: cl)
  from run_loop_node[OF run' lt inv at, of sa] obtain rp where
    "fst rp = ''planner''" "fst (snd rp) = str_tuple [drafter g]"
    "run_loop g E sa (Some (run_config topic)) G =
        (if ''planner'' \<in> set sa then ([rp], bump G [cp, cp0, cpi] i)
         else (rp # fst (run_loop g E sa None (bump G [cp, cp0, cpi] i)),
               snd (run_loop g E sa None (bump G [cp, cp0, cpi] i))))"
    by blast
  with at st running_bump[OF run, of "[cp, cp0, cpi]"] show ?thesis by blast
qed

lemma run_without_retriever:
  assumes fresh: "thread_id G + 1 = int (length (iterations G))" "store G (thread_id G + 1) = []"
    and ret: "retriever E = None"
  shows "\<exists>G'. run_agent g E True topic sa G = ([error_report (new_thread G)], G')
     \<and> executed E (current_log G') = [] \<and> length (current_log G') = 2"
proof -
  let ?G = "new_thread G"
  let ?i = "length (iterations G)"
  from running_new_thread[OF fresh] have ix: "py_index (iterations ?G) (thread_id ?G) = Inr ?i"
    and k: "iterations ?G ! ?i = 0" and cl: "current_log ?G = []"
    by (simp_all add: running_def)
  from invoke_without_retriever[OF ret, of g topic] obtain cp0 cpi where
    gi: "graph_invoke g E (Some (run_config topic)) [] = (Some AttributeError, [cp0, cpi])"
    and st: "step cp0 = 0" "step cpi = - 1" by blast
  let ?G' = "?G\<lparr>store := (store ?G)(thread_id ?G := [cp0, cpi])\<rparr>"
  have it: "iteration g E sa (Some (run_config topic)) ?G ?i = (error_report ?G, ?G', True)"
    by (simp add: iteration_def cl gi)
  have "run_loop g E sa (Some (run_config topic)) ?G = ([error_report ?G], ?G')"
    by (subst run_loop.simps) (simp add: ix k it max_iterations_def)
  moreover have "current_log ?G' = [cp0, cpi]" by (simp add: current_log_def)
  ultimately show ?thesis
    by (simp add: run_agent_start executed_initial[OF st])
qed

lemma full_run:
  assumes ok: "names_ok g"
    and fresh: "thread_id G + 1 = int (length (iterations G))" "store G (thread_id G + 1) = []"
    and gen: "generate E 2 = Some t" and ret: "retriever E = Some r"
  shows "\<exists>reports G' c rest. run_agent g E True topic [] G = (reports, G')
     \<and> map fst (take 6 reports)
         = [''planner'', drafter g, finalizer g, drafter g, finalizer g, drafter g]
     \<and> executed E (current_log G')
         = [''planner'', drafter g, finalizer g, drafter g, finalizer g, drafter g]
     \<and> length (current_log G') = 8
     \<and> current_log G' = c # rest \<and> next_cp c = [] \<and> rev_of (values_cp c) = 3
     \<and> dict_get (values_cp c) ''max_revisions'' (PInt 2) = PInt 2
     \<and> should_continue (finalizer g) (values_cp c) = END"
proof -
  let ?i = "length (iterations G)"
  have m: "(0::int) < max_iterations" "(1::int) < max_iterations" "(2::int) < max_iterations"
    "(3::int) < max_iterations" "(4::int) < max_iterations" "(5::int) < max_iterations"
    by (simp_all add: max_iterations_def)
  have e: "drafter g \<notin> set []" "finalizer g \<notin> set []" by simp_all
  from advance_planner[OF running_new_thread[OF fresh] m(1) gen ret, of g "[]" topic]
  obtain rp1 cp1 cp0 cpi where
    p1: "fst rp1 = ''planner''"
    and l1: "run_loop g E [] (Some (run_config topic)) (new_thread G) =
       (rp1 # fst (run_loop g E [] None (bump (new_thread G) [cp1, cp0, cpi] ?i)),
        snd (run_loop g E [] None (bump (new_thread G) [cp1, cp0, cpi] ?i)))"
    and a1: "at_node [cp1, cp0, cpi] ''planner'' [drafter g] 0" and s0: "step cp0 = 0" "step cpi = - 1"
    and r1: "running (bump (new_thread G) [cp1, cp0, cpi] ?i) ?i (0 + 1) [cp1, cp0, cpi]"
    by auto
  define G1 where "G1 = bump (new_thread G) [cp1, cp0, cpi] ?i"
  from advance_drafter[OF ok r1[folded G1_def] _ a1 e(1), of E] m
  obtain rp2 cp2 where
    p2: "fst rp2 = drafter g"
    and l2: "run_loop g E [] None G1 =
       (rp2 # fst (run_loop g E [] None (bump G1 [cp2, cp1, cp0, cpi] ?i)),
        snd (run_loop g E [] None (bump G1 [cp2, cp1, cp0, cpi] ?i)))"
    and a2: "at_node [cp2, cp1, cp0, cpi] (drafter g) [finalizer g] 1"
    and r2: "running (bump G1 [cp2, cp1, cp0, cpi] ?i) ?i 2 [cp2, cp1, cp0, cpi]"
    by auto
  define G2 where "G2 = bump G1 [cp2, cp1, cp0, cpi] ?i"
  from advance_finalizer[OF ok r2[folded G2_def] m(3) a2 e(2), of E]
  obtain rp3 cp3 where
    p3: "fst rp3 = finalizer g"
    and l3: "run_loop g E [] None G2 =
       (rp3 # fst (run_loop g E [] None (bump G2 [cp3, cp2, cp1, cp0, cpi] ?i)),
        snd (run_loop g E [] None (bump G2 [cp3, cp2, cp1, cp0, cpi] ?i)))"
    and a3: "at_node [cp3, cp2, cp1, cp0, cpi] (finalizer g) [drafter g] 1"
    and r3: "running (bump G2 [cp3, cp2, cp1, cp0, cpi] ?i) ?i 3 [cp3, cp2, cp1, cp0, cpi]"
    by auto
  define G3 where "G3 = bump G2 [cp3, cp2, cp1, cp0, cpi] ?i"
  from advance_drafter[OF ok r3[folded G3_def] m(4) a3 e(1), of E]
  obtain rp4 cp4 where
    p4: "fst rp4 = drafter g"
    and l4: "run_loop g E [] None G3 =
       (rp4 # fst (run_loop g E [] None (bump G3 [cp4, cp3, cp2, cp1, cp0, cpi] ?i)),
        snd (run_loop g E [] None (bump G3 [cp4, cp3, cp2, cp1, cp0, cpi] ?i)))"
    and a4: "at_node [cp4, cp3, cp2, cp1, cp0, cpi] (drafter g) [finalizer g] 2"
    and r4: "running (bump G3 [cp4, cp3, cp2, cp1, cp0, cpi] ?i) ?i 4 [cp4, cp3, cp2, cp1, cp0, cpi]"
    by auto
  define G4 where "G4 = bump G3 [cp4, cp3, cp2, cp1, cp0, cpi] ?i"
  from advance_finalizer[OF ok r4[folded G4_def] m(5) a4 e(2), of E]
  obtain rp5 cp5 where
    p5: "fst rp5 = finalizer g"
    and l5: "run_loop g E [] None G4 =
       (rp5 # fst (run_loop g E [] None (bump G4 [cp5, cp4, cp3, cp2, cp1, cp0, cpi] ?i)),
        snd (run_loop g E [] None (bump G4 [cp5, cp4, cp3, cp2, cp1, cp0, cpi] ?i)))"
    and a5: "at_node [cp5, cp4, cp3, cp2, cp1, cp0, cpi] (finalizer g) [drafter g] 2"
    and r5: "running (bump G4 [cp5, cp4, cp3, cp2, cp1, cp0, cpi] ?i) ?i 5
               [cp5, cp4, cp3, cp2, cp1, cp0, cpi]"
    by auto
  define G5 where "G5 = bump G4 [cp5, cp4, cp3, cp2, cp1, cp0, cpi] ?i"
  from advance_drafter[OF ok r5[folded G5_def] m(6) a5 e(1), of E]
  obtain rp6 cp6 where
    p6: "fst rp6 = drafter g"
    and l6: "run_loop g E [] None G5 =
       (rp6 # fst (run_loop g E [] None (bump G5 [cp6, cp5, cp4, cp3, cp2, cp1, cp0, cpi] ?i)),
        snd (run_loop g E [] None (bump G5 [cp6, cp5, cp4, cp3, cp2, cp1, cp0, cpi] ?i)))"
    and a6: "at_node [cp6, cp5, cp4, cp3, cp2, cp1, cp0, cpi] (drafter g) [] 3"
    and r6: "running (bump G5 [cp6, cp5, cp4, cp3, cp2, cp1, cp0, cpi] ?i) ?i 6
               [cp6, cp5, cp4, cp3, cp2, cp1, cp0, cpi]"
    by auto
  define G6 where "G6 = bump G5 [cp6, cp5, cp4, cp3, cp2, cp1, cp0, cpi] ?i"
  let ?lg = "[cp6, cp5, cp4, cp3, cp2, cp1, cp0, cpi]"
  have cl6: "current_log G6 = cp6 # [cp5, cp4, cp3, cp2, cp1, cp0, cpi]"
    by (simp add: G6_def current_log_bump)
  from a6 have n6: "next_cp cp6 = []" and v6: "valid_state (values_cp cp6)"
    and rv6: "rev_of (values_cp cp6) = 3"
    and mx6: "dict_get (values_cp cp6) ''max_revisions'' (PInt 2) = PInt 2"
    by (simp_all add: at_node_def)
  from idle_loop[OF refl cl6 n6, of g E "[]"]
  have fin: "current_log (snd (run_loop g E [] None G6)) = ?lg" by (simp add: cl6)
  have ex: "executed E ?lg
      = [''planner'', drafter g, finalizer g, drafter g, finalizer g, drafter g]"
    by (simp add: executed_cons[OF a6] executed_cons[OF a5] executed_cons[OF a4]
        executed_cons[OF a3] executed_cons[OF a2] executed_cons[OF a1] executed_initial[OF s0])
  have sc: "should_continue (finalizer g) (values_cp cp6) = END"
    using route_drafter(2)[OF ok v6 mx6] rv6 by simp
  have res: "run_agent g E True topic [] G
      = (rp1 # rp2 # rp3 # rp4 # rp5 # rp6 # fst (run_loop g E [] None G6),
         snd (run_loop g E [] None G6))"
    by (simp add: run_agent_start l1 l2 l3 l4 l5 l6
        G1_def[symmetric] G2_def[symmetric] G3_def[symmetric] G4_def[symmetric]
        G5_def[symmetric] G6_def[symmetric])
  show ?thesis
    using res p1 p2 p3 p4 p5 p6 fin ex n6 rv6 mx6 sc by simp
qed

section \<open>A full run\<close>

text \<open>
  Claim C1: a new run of the proposal designer (whose input fixes \<^verbatim>\<open>max_revisions\<close> at 2)
  on a thread without checkpoints, with nothing in \<open>stop_after\<close>, on a designer whose
  retriever was set up and whose planner's generation call returns (a planner that
  raises ends the run at once and nothing advances, see \<open>run_without_retriever\<close>), runs
  the nodes planner, drafter, finalizer, drafter, finalizer, drafter, in this order:
  these are the last nodes of the first six reports and of the six checkpoints the nodes
  wrote. After the sixth the revision number is 3, the routing predicate answers \<open>END\<close>,
  the checkpoint names no next node, and the thread's log stays at the two checkpoints
  of the input and these six whatever the loop does next.
\<close>

theorem fresh_run_visits_six_nodes:
  assumes "thread_id G + 1 = int (length (iterations G))"
    and "store G (thread_id G + 1) = []"
    and "generate E 2 = Some t"
    and "retriever E = Some r"
  shows "\<exists>reports G' c rest. run_agent esg E True topic [] G = (reports, G')
     \<and> map fst (take 6 reports)
         = [''planner'', ''drafter'', ''finalizer'', ''drafter'', ''finalizer'', ''drafter'']
     \<and> executed E (current_log G')
         = [''planner'', ''drafter'', ''finalizer'', ''drafter'', ''finalizer'', ''drafter'']
     \<and> length (current_log G') = 8
     \<and> current_log G' = c # rest \<and> next_cp c = [] \<and> rev_of (values_cp c) = 3
     \<and> dict_get (values_cp c) ''max_revisions'' (PInt 2) = PInt 2
     \<and> should_continue ''finalizer'' (values_cp c) = END"
proof -
  have n: "drafter esg = ''drafter''" "finalizer esg = ''finalizer''"
    by (simp_all add: esg_def)
  show ?thesis
    using full_run[OF names_ok_esg assms, of topic] by (simp only: n)
qed

theorem fresh_run_visits_six_nodes_witness:
  "thread_id init_gui + 1 = int (length (iterations init_gui))
   \<and> store init_gui (thread_id init_gui + 1) = []
   \<and> generate demo_env 2 = Some ''text''
   \<and> retriever demo_env = Some (\<lambda>_. Some [])
   \<and> (\<exists>reports G' c rest. run_agent esg demo_env True ''T'' [] init_gui = (reports, G')
     \<and> map fst (take 6 reports)
         = [''planner'', ''drafter'', ''finalizer'', ''drafter'', ''finalizer'', ''drafter'']
     \<and> executed demo_env (current_log G')
         = [''planner'', ''drafter'', ''finalizer'', ''drafter'', ''finalizer'', ''drafter'']
     \<and> length (current_log G') = 8
     \<and> current_log G' = c # rest \<and> next_cp c = [] \<and> rev_of (values_cp c) = 3
     \<and> dict_get (values_cp c) ''max_revisions'' (PInt 2) = PInt 2
     \<and> should_continue ''finalizer'' (values_cp c) = END)"
  using fresh_run_visits_six_nodes[of init_gui demo_env "''text''" "\<lambda>_. Some []" "''T''"]
  by (simp add: init_gui_def demo_env_def)

section \<open>Interrupting after the planner\<close>

lemma interrupt_resume:
  assumes ok: "names_ok g"
    and fresh: "thread_id G + 1 = int (length (iterations G))" "store G (thread_id G + 1) = []"
    and gen: "generate E 2 = Some t" and ret: "retriever E = Some r"
    and stop: "''planner'' \<in> set stop_after"
  shows "\<exists>rp G' c rest. run_agent g E True topic stop_after G = ([rp], G')
     \<and> fst rp = ''planner'' \<and> fst (snd rp) = str_tuple [drafter g]
     \<and> current_log G' = c # rest \<and> next_cp c = [drafter g]
     \<and> executed E (current_log G') = [''planner'']
     \<and> (\<forall>topic' stop'. \<exists>rp' rs G'' cp.
           run_agent g E False topic' stop' G' = (rp' # rs, G'')
         \<and> fst rp' = drafter g
         \<and> graph_invoke g E None (current_log G') = (None, cp # current_log G')
         \<and> values_cp cp ''lnode'' = Some (PStr (drafter g)))"
proof -
  let ?i = "length (iterations G)"
  have m: "(0::int) < max_iterations" "(0::int) + 1 < max_iterations"
    by (simp_all add: max_iterations_def)
  from advance_planner[OF running_new_thread[OF fresh] m(1) gen ret, of g stop_after topic] stop
  obtain rp cp1 cp0 cpi where
    p1: "fst rp = ''planner''" "fst (snd rp) = str_tuple [drafter g]"
    and l1: "run_loop g E stop_after (Some (run_config topic)) (new_thread G) =
       ([rp], bump (new_thread G) [cp1, cp0, cpi] ?i)"
    and a1: "at_node [cp1, cp0, cpi] ''planner'' [drafter g] 0" and s0: "step cp0 = 0" "step cpi = - 1"
    and r1: "running (bump (new_thread G) [cp1, cp0, cpi] ?i) ?i (0 + 1) [cp1, cp0, cpi]"
    by auto
  define G1 where "G1 = bump (new_thread G) [cp1, cp0, cpi] ?i"
  have cl: "current_log G1 = [cp1, cp0, cpi]" by (simp add: G1_def current_log_bump)
  have nx: "next_cp cp1 = [drafter g]" using a1 by (simp add: at_node_def)
  have ex: "executed E (current_log G1) = [''planner'']"
    by (simp add: cl executed_cons[OF a1] executed_initial[OF s0])
  have res: "run_agent g E True topic stop_after G = ([rp], G1)"
    by (simp add: run_agent_start l1 G1_def)
  have cont: "\<exists>rp' rs G'' cp.
           run_agent g E False topic' stop' G1 = (rp' # rs, G'')
         \<and> fst rp' = drafter g
         \<and> graph_invoke g E None (current_log G1) = (None, cp # current_log G1)
         \<and> values_cp cp ''lnode'' = Some (PStr (drafter g))" for topic' stop'
  proof -
    from run_step_drafter[OF ok a1, of E] obtain cp where
      rs: "run_step g E [cp1, cp0, cpi] = (None, cp # [cp1, cp0, cpi])"
      and at': "at_node (cp # [cp1, cp0, cpi]) (drafter g) (if 2 < (0::int) + 1 then [] else [finalizer g]) (0 + 1)"
      by blast
    have inv: "graph_invoke g E None (current_log G1) = (None, cp # [cp1, cp0, cpi])"
      using rs by (simp add: graph_invoke_def cl)
    from r1 have run': "running G1 ?i (0 + 1) (current_log G1)"
      by (simp add: G1_def running_def)
    from run_loop_node[OF run' m(2) inv at', of stop'] obtain rp' where
      f: "fst rp' = drafter g"
      and rl: "run_loop g E stop' None G1 =
        (if drafter g \<in> set stop' then ([rp'], bump G1 (cp # [cp1, cp0, cpi]) ?i)
         else (rp' # fst (run_loop g E stop' None (bump G1 (cp # [cp1, cp0, cpi]) ?i)),
               snd (run_loop g E stop' None (bump G1 (cp # [cp1, cp0, cpi]) ?i))))"
      by blast
    have ln: "values_cp cp ''lnode'' = Some (PStr (drafter g))"
      using at' by (simp add: at_node_def)
    have inv2: "graph_invoke g E None (current_log G1) = (None, cp # current_log G1)"
      using inv cl by simp
    have "\<exists>rs G''. run_agent g E False topic' stop' G1 = (rp' # rs, G'')"
      by (simp add: run_agent_def rl)
    with f inv2 ln show ?thesis by blast
  qed
  from res p1 cl nx ex cont show ?thesis by blast
qed

text \<open>
  Claim C4: when the planner step completes (the retriever was set up and the planner's
  generation call returns), a new run with \<open>stop_after\<close> = {planner} on a thread without
  checkpoints yields exactly one report, the planner's, whose next node is the drafter,
  and stops;
  only the planner has run. Any later call that continues the thread reports the
  drafter first: its first \<^verbatim>\<open>invoke\<close> appends a checkpoint written by the drafter.
\<close>

theorem planner_interrupt_then_resume:
  assumes "g = course \<or> g = esg"
    and "thread_id G + 1 = int (length (iterations G))"
    and "store G (thread_id G + 1) = []"
    and "generate E 2 = Some t"
    and "retriever E = Some r"
  shows "\<exists>rp G' c rest. run_agent g E True topic [''planner''] G = ([rp], G')
     \<and> fst rp = ''planner'' \<and> fst (snd rp) = str_tuple [drafter g]
     \<and> current_log G' = c # rest \<and> next_cp c = [drafter g]
     \<and> executed E (current_log G') = [''planner'']
     \<and> (\<forall>topic' stop'. \<exists>rp' rs G'' cp.
           run_agent g E False topic' stop' G' = (rp' # rs, G'')
         \<and> fst rp' = drafter g
         \<and> graph_invoke g E None (current_log G') = (None, cp # current_log G')
         \<and> values_cp cp ''lnode'' = Some (PStr (drafter g)))"
  using interrupt_resume[OF deployment_names[OF assms(1)] assms(2,3,4,5), of "[''planner'']" topic]
  by simp

theorem planner_interrupt_then_resume_witness:
  "thread_id init_gui + 1 = int (length (iterations init_gui))
   \<and> store init_gui (thread_id init_gui + 1) = []
   \<and> generate demo_env 2 = Some ''text''
   \<and> retriever demo_env = Some (\<lambda>_. Some [])
   \<and> (\<exists>rp G' c rest. run_agent course demo_env True ''T'' [''planner''] init_gui = ([rp], G')
     \<and> fst rp = ''planner'' \<and> fst (snd rp) = str_tuple [''course designer'']
     \<and> current_log G' = c # rest \<and> next_cp c = [''course designer'']
     \<and> executed demo_env (current_log G') = [''planner'']
     \<and> (\<forall>topic' stop'. \<exists>rp' rs G'' cp.
           run_agent course demo_env False topic' stop' G' = (rp' # rs, G'')
         \<and> fst rp' = ''course designer''
         \<and> graph_invoke course demo_env None (current_log G') = (None, cp # current_log G')
         \<and> values_cp cp ''lnode'' = Some (PStr ''course designer'')))"
proof -
  have d: "drafter course = ''course designer''" by (simp add: course_def)
  show ?thesis
    using planner_interrupt_then_resume[of course init_gui demo_env "''text''" "\<lambda>_. Some []" "''T''"]
    by (simp add: init_gui_def demo_env_def d)
qed

section \<open>Reading the display state\<close>

text \<open>What the latest checkpoint of the current thread stores under a key (nothing when the
  thread has no checkpoint or the key is absent), and when that is no number: \<^verbatim>\<open>int\<close>
  raises on it, or there is nothing to convert.\<close>

definition stored :: "gui \<Rightarrow> string \<Rightarrow> pyval option" where
  "stored G k = (case graph_get_state (current_log G) of None \<Rightarrow> None | Some c \<Rightarrow> values_cp c k)"

definition malformed :: "env \<Rightarrow> pyval option \<Rightarrow> bool" where
  "malformed E vo =
     (case vo of
        None \<Rightarrow> True
      | Some v \<Rightarrow> (case py_int E v of Inl _ \<Rightarrow> True | Inr _ \<Rightarrow> False))"

definition disp_rev :: "report \<Rightarrow> int" where
  "disp_rev r = fst (snd (snd (snd r)))"

definition disp_count :: "report \<Rightarrow> int" where
  "disp_count r = snd (snd (snd (snd r)))"

text \<open>The session of \<open>demo_gui\<close> after the caller wrote a placeholder text into the
  revision number.\<close>

definition placeholder_gui :: gui where
  "placeholder_gui =
     modify_state course demo_env ''revision_number'' ''planner'' (PStr ''n/a'') demo_gui"

lemma coerce_int_total: "\<exists>n. coerce_int E v = Inr n"
  by (cases v) (auto simp: coerce_int_def py_int_def split: option.splits)

lemma coerce_int_malformed:
  "malformed E (Some v) \<Longrightarrow> coerce_int E v = Inr 0"
  by (cases v) (auto simp: coerce_int_def py_int_def malformed_def split: option.splits sum.splits)

lemma coerce_int_default: "malformed E vo \<Longrightarrow> coerce_int E (case vo of None \<Rightarrow> PInt 0 | Some v \<Rightarrow> v) = Inr 0"
  by (cases vo) (simp_all add: coerce_int_malformed coerce_int_PInt)

lemma disp_try_fields:
  "\<exists>l n. disp_try E G = Inr (l, n, thread_id G,
      (case coerce_int E (case stored G ''revision_number'' of None \<Rightarrow> PInt 0 | Some v \<Rightarrow> v) of
         Inr r \<Rightarrow> r | Inl _ \<Rightarrow> 0),
      (case coerce_int E (case stored G ''count'' of None \<Rightarrow> PInt 0 | Some v \<Rightarrow> v) of
         Inr a \<Rightarrow> a | Inl _ \<Rightarrow> 0))"
proof -
  let ?rv = "case stored G ''revision_number'' of None \<Rightarrow> PInt 0 | Some v \<Rightarrow> v"
  let ?ct = "case stored G ''count'' of None \<Rightarrow> PInt 0 | Some v \<Rightarrow> v"
  from coerce_int_total[of E ?rv] obtain r where r: "coerce_int E ?rv = Inr r" by blast
  from coerce_int_total[of E ?ct] obtain a where a: "coerce_int E ?ct = Inr a" by blast
  show ?thesis
  proof (cases "graph_get_state (current_log G)")
    case None
    then show ?thesis
      by (simp add: disp_try_def stored_def coerce_int_PInt)
  next
    case (Some c)
    with r a show ?thesis
      by (simp add: disp_try_def stored_def dict_get_def Let_def)
  qed
qed

text \<open>
  Claim C9: \<^verbatim>\<open>get_disp_state\<close> never raises (not even its outer handler is reached), and
  when the latest checkpoint of the thread stores no number under \<^verbatim>\<open>revision_number\<close>
  (the key is absent, or the value is \<^verbatim>\<open>None\<close>, a text that \<^verbatim>\<open>int\<close> rejects or a list),
  the revision it reports is 0; the same holds for \<^verbatim>\<open>count\<close>. A stored integer
  is reported as it is.
\<close>

theorem get_disp_state_coerces_to_zero:
  "(\<forall>e. disp_try E G \<noteq> Inl e)
   \<and> (malformed E (stored G ''revision_number'') \<longrightarrow> disp_rev (get_disp_state E G) = 0)
   \<and> (malformed E (stored G ''count'') \<longrightarrow> disp_count (get_disp_state E G) = 0)
   \<and> (\<forall>n. stored G ''revision_number'' = Some (PInt n) \<longrightarrow> disp_rev (get_disp_state E G) = n)
   \<and> (\<forall>n. stored G ''count'' = Some (PInt n) \<longrightarrow> disp_count (get_disp_state E G) = n)"
proof -
  from disp_try_fields[of E G] obtain l n where
    d: "disp_try E G = Inr (l, n, thread_id G,
      (case coerce_int E (case stored G ''revision_number'' of None \<Rightarrow> PInt 0 | Some v \<Rightarrow> v) of
         Inr r \<Rightarrow> r | Inl _ \<Rightarrow> 0),
      (case coerce_int E (case stored G ''count'' of None \<Rightarrow> PInt 0 | Some v \<Rightarrow> v) of
         Inr a \<Rightarrow> a | Inl _ \<Rightarrow> 0))" by blast
  have 1: "\<forall>e. disp_try E G \<noteq> Inl e" using d by simp
  have 2: "disp_rev (get_disp_state E G) = 0" if "malformed E (stored G ''revision_number'')"
    using d coerce_int_default[OF that] by (simp add: get_disp_state_def disp_rev_def)
  have 3: "disp_count (get_disp_state E G) = 0" if "malformed E (stored G ''count'')"
    using d coerce_int_default[OF that] by (simp add: get_disp_state_def disp_count_def)
  have 4: "disp_rev (get_disp_state E G) = n" if "stored G ''revision_number'' = Some (PInt n)" for n
    using d that by (simp add: get_disp_state_def disp_rev_def coerce_int_PInt)
  have 5: "disp_count (get_disp_state E G) = n" if "stored G ''count'' = Some (PInt n)" for n
    using d that by (simp add: get_disp_state_def disp_count_def coerce_int_PInt)
  from 1 2 3 4 5 show ?thesis by blast
qed

lemma placeholder_stored:
  "stored placeholder_gui ''revision_number'' = Some (PStr ''n/a'')"
  "stored placeholder_gui ''count'' = Some (PInt 2)"
  by code_simp+

lemma placeholder_malformed: "malformed demo_env (Some (PStr ''n/a''))"
  by (simp add: malformed_def py_int_def demo_env_def)

theorem get_disp_state_coerces_to_zero_witness:
  "stored placeholder_gui ''revision_number'' = Some (PStr ''n/a'')
   \<and> malformed demo_env (stored placeholder_gui ''revision_number'')
   \<and> disp_rev (get_disp_state demo_env placeholder_gui) = 0
   \<and> stored placeholder_gui ''count'' = Some (PInt 2)
   \<and> disp_count (get_disp_state demo_env placeholder_gui) = 2"
proof -
  have m: "malformed demo_env (stored placeholder_gui ''revision_number'')"
    by (simp add: placeholder_stored placeholder_malformed)
  from get_disp_state_coerces_to_zero[of demo_env placeholder_gui] m placeholder_stored(2)
  have "disp_rev (get_disp_state demo_env placeholder_gui) = 0"
    and "disp_count (get_disp_state demo_env placeholder_gui) = 2"
    by blast+
  with m placeholder_stored show ?thesis by blast
qed

section \<open>The stage invariant\<close>

text \<open>The state that the latest checkpoint of \<open>placeholder_gui\<close> stores: all nine keys,
  with the text \<^verbatim>\<open>n/a\<close> under \<^verbatim>\<open>revision_number\<close>, as \<^verbatim>\<open>modify_state\<close> wrote it.\<close>

definition edited_state :: state where
  "edited_state = channels (current_log placeholder_gui)"

text \<open>
  Claim C3 says that a stage executed on any input state returns a state with every field
  present and valid, and that only the draft stage changes the revision number. On
  \<open>edited_state\<close> the draft stage returns nothing: \<^verbatim>\<open>state.get("revision_number", 0) + 1\<close>
  raises \<^verbatim>\<open>TypeError\<close> in the \<^verbatim>\<open>try\<close> block and again in the handler, with and without a
  generation failure, and continuing the thread ends in that exception. The planner and
  the reflection stage return, and the state stored after them still holds the text as
  revision number.
\<close>

theorem stage_raises_on_edited_state:
  "complete_state edited_state
   \<and> edited_state ''revision_number'' = Some (PStr ''n/a'')
   \<and> (case writer_node edited_state (Some ''text'') of
         Inl e \<Rightarrow> e = TypeError | Inr d \<Rightarrow> False)
   \<and> (case writer_node edited_state None of
         Inl e \<Rightarrow> e = TypeError | Inr d \<Rightarrow> False)
   \<and> (case exec_node course ''course designer'' edited_state (Inr []) (Some ''text'') of
         Inl e \<Rightarrow> e = TypeError | Inr s' \<Rightarrow> False)
   \<and> fst (run_agent course demo_env False ''T'' [] placeholder_gui)
       = [error_report placeholder_gui]
   \<and> (case exec_node course ''reflect'' edited_state (Inr []) (Some ''text'') of
         Inl e \<Rightarrow> False
       | Inr s' \<Rightarrow> s' ''revision_number'' = Some (PStr ''n/a'') \<and> \<not> valid_state s')
   \<and> (case exec_node course ''planner'' edited_state (Inr []) (Some ''text'') of
         Inl e \<Rightarrow> False
       | Inr s' \<Rightarrow> s' ''revision_number'' = Some (PStr ''n/a'') \<and> \<not> valid_state s')"
  by code_simp

text \<open>
  Claim C3 as amended: on every valid input state (each stored field has its declared
  type and the count is not negative), for both deployments and each of the three
  stages (for the planner, when its retrieval and its generation call return, since
  \<^verbatim>\<open>plan_node\<close> has no handler), the stage returns, the state stored after it holds all nine
  keys with values of the declared types, the count after it is larger than before, and
  the revision number is one more after the draft stage and unchanged after the planner
  and the finalizer.
\<close>

theorem stage_keeps_state_complete:
  assumes v: "valid_state s"
    and g: "g = course \<or> g = esg"
    and n: "name = ''planner'' \<or> name = drafter g \<or> name = finalizer g"
    and p: "name = ''planner'' \<longrightarrow> (\<exists>docs. retrieval = Inr docs) \<and> response \<noteq> None"
  shows "\<exists>s'. exec_node g name s retrieval response = Inr s'
     \<and> complete_state s' \<and> valid_state s'
     \<and> count_of s < count_of s'
     \<and> rev_of s' = (if name = drafter g then rev_of s + 1 else rev_of s)"
proof -
  have ok: "names_ok g" by (rule deployment_names[OF g])
  from valid_count[OF v] have c0: "0 \<le> count_of s" by (auto simp: count_of_def)
  consider (pl) "name = ''planner''" | (dr) "name = drafter g" | (fi) "name = finalizer g"
    using n by blast
  then show ?thesis
  proof cases
    case pl
    with p obtain docs t where t: "retrieval = Inr docs" "response = Some t" by auto
    from planner_step[OF v, of g docs t] pl t ok show ?thesis
      by (auto simp: names_ok_def)
  next
    case dr
    from drafter_step[OF v ok, of retrieval response] dr c0 show ?thesis by auto
  next
    case fi
    from finalizer_step[OF v ok, of retrieval response] fi c0 ok show ?thesis
      by (auto simp: names_ok_def)
  qed
qed

theorem stage_keeps_state_complete_witness:
  "valid_state (run_config ''T'')
   \<and> (\<exists>s'. exec_node course ''planner'' (run_config ''T'') (Inr []) (Some ''plan'') = Inr s'
        \<and> complete_state s' \<and> valid_state s'
        \<and> count_of (run_config ''T'') < count_of s' \<and> rev_of s' = 0)
   \<and> (\<exists>s'. exec_node course ''course designer'' (run_config ''T'') (Inr []) None = Inr s'
        \<and> complete_state s' \<and> valid_state s'
        \<and> count_of (run_config ''T'') < count_of s' \<and> rev_of s' = 1)"
  using stage_keeps_state_complete[of "run_config ''T''" course "''planner''" "Inr []"
      "Some ''plan''"]
    stage_keeps_state_complete[of "run_config ''T''" course "''course designer''" "Inr []" None]
  by (simp add: valid_run_config course_def count_run_config)

section \<open>Restoring a checkpoint\<close>

text \<open>The same session under a library that stamps checkpoints with plain sequence
  numbers, which hold no colon.\<close>

definition plain_env :: env where
  "plain_env = demo_env\<lparr>clock := show_nat\<rparr>"

definition plain_gui :: gui where
  "plain_gui = snd (run_agent course plain_env True ''T'' [''planner''] init_gui)"

lemma find_config_absent:
  "ts \<notin> thread_ts ` set lg \<Longrightarrow> find_config lg ts = None"
  by (auto simp: find_config_def find_None_iff)

lemma copy_state_not_found:
  assumes "last_field hist_str \<notin> thread_ts ` set (current_log G)"
  shows "copy_state g E hist_str G = Inr (blank, G)"
  by (simp add: copy_state_def find_config_absent[OF assms])

lemma copy_state_empty: "copy_state g E '''' G = Inr (blank, G)"
  by (simp add: copy_state_def)

text \<open>
  Claim C5 says that restoring a checkpoint of the thread's history appends one checkpoint
  whose state equals the restored one. Here the thread holds the two checkpoints of the
  input and the planner's (count 1), and the planner's entry of the history dropdown is restored. The
  log does grow by one and keeps the old checkpoints, but the values go through the
  channels: the restored count 1 is added to the current count 1, and the new checkpoint
  counts 2.
\<close>

theorem restore_adds_the_counts:
  "update_hist_pd plain_env plain_gui
     = [''0:1:planner:('' @ quoted ''course designer'' @ '',):0:2'']
   \<and> map thread_ts (current_log plain_gui) = [''2'', ''1'', ''0'']
   \<and> (case copy_state course plain_env (hd (update_hist_pd plain_env plain_gui)) plain_gui of
        Inl e \<Rightarrow> False
      | Inr (res, G') \<Rightarrow>
         (case current_log G' of
            new # restored # rest \<Rightarrow>
              map thread_ts (restored # rest) = map thread_ts (current_log plain_gui)
            \<and> thread_ts restored = ''2''
            \<and> values_cp restored ''count'' = Some (PInt 1)
            \<and> values_cp new ''count'' = Some (PInt 2)
            \<and> values_cp new ''plan'' = values_cp restored ''plan''
          | _ \<Rightarrow> False))"
  by code_simp

text \<open>With the ISO 8601 stamps, \<^verbatim>\<open>split(":")[-1]\<close> cuts the id out of the entry's last
  field only in part (the stamp itself holds colons), no checkpoint has that id, and
  nothing is restored at all.\<close>

lemma restore_misses_iso_stamp:
  "update_hist_pd demo_env demo_gui
     = [''0:1:planner:('' @ quoted ''course designer'' @ '',):0:2024-05-01T10:00:02.000000+00:00'']
   \<and> map thread_ts (current_log demo_gui)
     = [''2024-05-01T10:00:02.000000+00:00'', ''2024-05-01T10:00:01.000000+00:00'',
        ''2024-05-01T10:00:00.000000+00:00'']
   \<and> last_field (hd (update_hist_pd demo_env demo_gui)) = ''00''
   \<and> (case copy_state course demo_env (hd (update_hist_pd demo_env demo_gui)) demo_gui of
        Inl e \<Rightarrow> False
      | Inr (res, G') \<Rightarrow>
          res = blank \<and> map thread_ts (current_log G') = map thread_ts (current_log demo_gui))"
  by code_simp

text \<open>
  Claim C6 says that restoring an id that is not in the history fails with an error the
  caller can tell from a restore. The code returns the blank tuple and leaves the
  controller as it was.
\<close>

theorem restore_unknown_id_is_silent:
  "last_field ''0:1:planner:x:0:nowhere'' \<notin> thread_ts ` set (current_log demo_gui)
   \<and> copy_state course demo_env ''0:1:planner:x:0:nowhere'' demo_gui = Inr (blank, demo_gui)"
proof -
  have a: "last_field ''0:1:planner:x:0:nowhere'' \<notin> thread_ts ` set (current_log demo_gui)"
    by code_simp
  from a copy_state_not_found[OF a] show ?thesis by blast
qed

text \<open>
  Claim C6 as amended: for every checkpoint id that does not occur in the history of the
  current thread, \<^verbatim>\<open>copy_state\<close> raises nothing, leaves the controller and the log
  unchanged, and returns the blank tuple, the same result as for an empty selection.
\<close>

theorem restore_unknown_id_returns_blank:
  assumes "last_field hist_str \<notin> thread_ts ` set (current_log G)"
  shows "copy_state g E hist_str G = Inr (blank, G)
       \<and> copy_state g E hist_str G = copy_state g E '''' G"
  using copy_state_not_found[OF assms] copy_state_empty by simp

theorem restore_unknown_id_returns_blank_witness:
  "last_field ''N/A'' \<notin> thread_ts ` set (current_log demo_gui)
   \<and> copy_state course demo_env ''N/A'' demo_gui = Inr (blank, demo_gui)
   \<and> copy_state course demo_env ''N/A'' demo_gui = copy_state course demo_env '''' demo_gui"
proof -
  have a: "last_field ''N/A'' \<notin> thread_ts ` set (current_log demo_gui)"
    by code_simp
  from a restore_unknown_id_returns_blank[OF a] show ?thesis by blast
qed

section \<open>Switching threads\<close>

text \<open>
  Claim C7 says that switching to an id that was never created fails and leaves the
  current thread as it is. The session of \<open>demo_gui\<close> has created thread 0 only, and
  switching to 5 makes 5 the current thread.
\<close>

theorem switch_to_unknown_thread_succeeds:
  "threads demo_gui = [0] \<and> thread_id demo_gui = 0
   \<and> thread_id (switch_thread 5 demo_gui) = 5"
  by code_simp

text \<open>
  Claim C7 as amended: for every thread id, created or not, \<^verbatim>\<open>switch_thread\<close> makes it the
  current thread; it cannot fail and changes nothing else of the controller, so the
  current log afterwards is whatever the checkpointer holds for that id.
\<close>

theorem switch_thread_sets_pointer:
  "thread_id (switch_thread n G) = n
   \<and> threads (switch_thread n G) = threads G
   \<and> iterations (switch_thread n G) = iterations G
   \<and> store (switch_thread n G) = store G
   \<and> current_log (switch_thread n G) = store G n"
  by (simp add: switch_thread_def current_log_def)

section \<open>Editing a field\<close>

text \<open>
  Claim C8 says that after \<^verbatim>\<open>modify_state("plan", "planner", X)\<close> the plan reads back as
  \<open>X\<close> and every other field of the new checkpoint is that of the one before. On the
  session of \<open>demo_gui\<close> the plan does read back and seven fields are kept, but the full
  dict is written through the channels, count included: the count 1 is added to itself.
\<close>

theorem modify_plan_doubles_count:
  "(case current_log (modify_state course demo_env ''plan'' ''planner'' (PStr ''X'') demo_gui) of
      new # old # rest \<Rightarrow>
        map thread_ts (old # rest) = map thread_ts (current_log demo_gui)
      \<and> snd (get_state course demo_env ''plan''
               (modify_state course demo_env ''plan'' ''planner'' (PStr ''X'') demo_gui)) = PStr ''X''
      \<and> values_cp new ''task'' = values_cp old ''task''
      \<and> values_cp new ''draft'' = values_cp old ''draft''
      \<and> values_cp new ''critique'' = values_cp old ''critique''
      \<and> values_cp new ''revision_number'' = values_cp old ''revision_number''
      \<and> values_cp new ''max_revisions'' = values_cp old ''max_revisions''
      \<and> values_cp new ''retrieved_docs'' = values_cp old ''retrieved_docs''
      \<and> values_cp old ''count'' = Some (PInt 1)
      \<and> values_cp new ''count'' = Some (PInt 2)
    | _ \<Rightarrow> False)"
  by code_simp

section \<open>The law of the step counter\<close>

text \<open>
  On a valid state, a step of the drafter or of the finalizer (whether or not its
  generation call returns) leaves the count at twice the old count plus one: the node
  returns the old count plus one, and the additive channel adds that to the old count.
\<close>

theorem later_stages_double_the_count:
  assumes "valid_state s"
    and "g = course \<or> g = esg"
    and "name = drafter g \<or> name = finalizer g"
  shows "\<exists>s'. exec_node g name s retrieval response = Inr s'
     \<and> count_of s' = 2 * count_of s + 1"
proof -
  have ok: "names_ok g" by (rule deployment_names[OF assms(2)])
  from assms(3) show ?thesis
  proof
    assume "name = drafter g"
    with drafter_step[OF assms(1) ok, of retrieval response] show ?thesis by auto
  next
    assume "name = finalizer g"
    with finalizer_step[OF assms(1) ok, of retrieval response] show ?thesis by auto
  qed
qed

theorem later_stages_double_the_count_witness:
  "valid_state (run_config ''T'')
   \<and> (\<exists>s'. exec_node course ''reflect'' (run_config ''T'') (Inr []) (Some ''text'') = Inr s'
        \<and> count_of s' = 1)"
  using later_stages_double_the_count[of "run_config ''T''" course "''reflect''" "Inr []" "Some ''text''"]
  by (simp add: valid_run_config course_def count_run_config)

end
